theory Spec2Isabelle
  imports Main "HOL-Library.Char_ord" "HOL-Library.List_Lexorder" "HOL-Library.Multiset"
    "HOL-Library.AList"
begin

section \<open>Go values, strings and errors\<close>

text \<open>
  A Go \<open>string\<close> is a byte sequence; it is modelled as \<^typ>\<open>string\<close> (a list of 8-bit
  characters). With \<open>Char_ord\<close> and \<open>List_Lexorder\<close> the order on strings is the bytewise
  lexicographic order that Go's comparison operators on strings compute.

  A value of type \<open>interface{}\<close> that is bound to a statement is one of the shapes below;
  \<open>VNil\<close> is Go's \<open>nil\<close>, which the driver sends as SQL NULL.
\<close>

datatype val = VNil | VBool bool | VInt int | VStr string | VList "val list"

text \<open>
  A Go \<open>error\<close> value: the message that \<open>Error()\<close> returns, and the error wrapped by
  \<open>%w\<close> in \<open>fmt.Errorf\<close> (if any).
\<close>

datatype error = Error (message: string) (cause: "error option")

definition errorf :: "string \<Rightarrow> error" where
  "errorf msg = Error msg None"

text \<open>\<open>fmt.Errorf(prefix + "%w", e)\<close>: the message of \<open>e\<close> is appended, \<open>e\<close> is kept as cause.\<close>

definition wrapf :: "string \<Rightarrow> error \<Rightarrow> error" where
  "wrapf pre e = Error (pre @ message e) (Some e)"

subsection \<open>\<open>strings.ToLower\<close> and \<open>strings.Contains\<close>\<close>

text \<open>
  The lower case of a byte below 128: the letters \<open>A\<close> to \<open>Z\<close> become \<open>a\<close> to \<open>z\<close>, every
  other byte is kept.
\<close>

definition lower_char :: "char \<Rightarrow> char" where
  "lower_char c =
    (if c = CHR ''A'' then CHR ''a'' else if c = CHR ''B'' then CHR ''b''
     else if c = CHR ''C'' then CHR ''c'' else if c = CHR ''D'' then CHR ''d''
     else if c = CHR ''E'' then CHR ''e'' else if c = CHR ''F'' then CHR ''f''
     else if c = CHR ''G'' then CHR ''g'' else if c = CHR ''H'' then CHR ''h''
     else if c = CHR ''I'' then CHR ''i'' else if c = CHR ''J'' then CHR ''j''
     else if c = CHR ''K'' then CHR ''k'' else if c = CHR ''L'' then CHR ''l''
     else if c = CHR ''M'' then CHR ''m'' else if c = CHR ''N'' then CHR ''n''
     else if c = CHR ''O'' then CHR ''o'' else if c = CHR ''P'' then CHR ''p''
     else if c = CHR ''Q'' then CHR ''q'' else if c = CHR ''R'' then CHR ''r''
     else if c = CHR ''S'' then CHR ''s'' else if c = CHR ''T'' then CHR ''t''
     else if c = CHR ''U'' then CHR ''u'' else if c = CHR ''V'' then CHR ''v''
     else if c = CHR ''W'' then CHR ''w'' else if c = CHR ''X'' then CHR ''x''
     else if c = CHR ''Y'' then CHR ''y'' else if c = CHR ''Z'' then CHR ''z''
     else c)"

text \<open>
  \<open>strings.ToLower\<close>, on the bytes of the string. Go lowers an all-ASCII string byte by
  byte, and any other string rune by rune through the Unicode table. Two runes outside
  ASCII have an ASCII lower case and are modelled: U+0130 (the bytes \<open>C4 B0\<close>) becomes
  \<open>i\<close>, and U+212A (the bytes \<open>E2 84 AA\<close>) becomes \<open>k\<close>. The bytes \<open>C4\<close> and \<open>E2\<close> are
  lead bytes, so wherever these byte runs occur Go decodes exactly these runes. Every other
  byte above 127 is kept: Go writes there the bytes of the lowered rune (or of U+FFFD for a
  byte that is not valid UTF-8), all of them above 127 again, so the ASCII bytes of the
  result and the places where they are adjacent are those of the code.
\<close>

fun ToLower :: "string \<Rightarrow> string" where
  "ToLower [] = []"
| "ToLower (c # cs) =
    (if c = CHR 0xC4 \<and> take 1 cs = [CHR 0xB0] then CHR ''i'' # ToLower (drop 1 cs)
     else if c = CHR 0xE2 \<and> take 2 cs = [CHR 0x84, CHR 0xAA] then CHR ''k'' # ToLower (drop 2 cs)
     else lower_char c # ToLower cs)"

fun has_prefix :: "string \<Rightarrow> string \<Rightarrow> bool" where
  "has_prefix [] s = True"
| "has_prefix (p # ps) [] = False"
| "has_prefix (p # ps) (c # cs) = (p = c \<and> has_prefix ps cs)"

text \<open>\<open>strings.Contains(s, sub)\<close>: \<open>sub\<close> occurs in \<open>s\<close> as a contiguous run of bytes.\<close>

fun Contains :: "string \<Rightarrow> string \<Rightarrow> bool" where
  "Contains [] sub = (sub = [])"
| "Contains (c # cs) sub = (has_prefix sub (c # cs) \<or> Contains cs sub)"

subsection \<open>\<open>%d\<close> of \<open>fmt.Sprintf\<close>\<close>

definition digit_char :: "nat \<Rightarrow> char" where
  "digit_char d =
    (if d = 0 then CHR ''0'' else if d = 1 then CHR ''1'' else if d = 2 then CHR ''2''
     else if d = 3 then CHR ''3'' else if d = 4 then CHR ''4'' else if d = 5 then CHR ''5''
     else if d = 6 then CHR ''6'' else if d = 7 then CHR ''7'' else if d = 8 then CHR ''8''
     else CHR ''9'')"

fun nat_dec :: "nat \<Rightarrow> string" where
  "nat_dec n = (if n < 10 then [digit_char n] else nat_dec (n div 10) @ [digit_char (n mod 10)])"

declare nat_dec.simps [simp del]

definition sprintf_d :: "int \<Rightarrow> string" where
  "sprintf_d i = (if i < 0 then CHR ''-'' # nat_dec (nat (- i)) else nat_dec (nat i))"


section \<open>Filter and sort translation\<close>

text \<open>
  \<open>type Filter struct { Column string; Operator string; Value interface{} }\<close> and
  \<open>type Sort struct { Column string; Direction string }\<close>. The two structs share the field
  name \<open>Column\<close>; the field of \<open>Sort\<close> is \<open>SortColumn\<close> here.
\<close>

record Filter =
  Column :: string
  Operator :: string
  Value :: val


text \<open>\<open>func (f Filter) ToSQL(paramIndex int) (string, interface{})\<close>, branch by branch.\<close>

definition ToSQL :: "Filter \<Rightarrow> int \<Rightarrow> string \<times> val" where
  "ToSQL f paramIndex =
    (if Operator f = ''eq'' then (Column f @ '' = $'' @ sprintf_d paramIndex, Value f)
     else if Operator f = ''ne'' then (Column f @ '' != $'' @ sprintf_d paramIndex, Value f)
     else if Operator f = ''gt'' then (Column f @ '' > $'' @ sprintf_d paramIndex, Value f)
     else if Operator f = ''gte'' then (Column f @ '' >= $'' @ sprintf_d paramIndex, Value f)
     else if Operator f = ''lt'' then (Column f @ '' < $'' @ sprintf_d paramIndex, Value f)
     else if Operator f = ''lte'' then (Column f @ '' <= $'' @ sprintf_d paramIndex, Value f)
     else if Operator f = ''like'' then (Column f @ '' LIKE $'' @ sprintf_d paramIndex, Value f)
     else if Operator f = ''in'' then (Column f @ '' IN $'' @ sprintf_d paramIndex, Value f)
     else (Column f @ '' = $'' @ sprintf_d paramIndex, Value f))"



section \<open>The database manager\<close>

subsection \<open>The embedded engine, seen from the manager\<close>

text \<open>
  The engine (\<open>database/sql\<close> over DuckDB) is outside the repository. The manager sees it
  through calls that succeed or fail; the model records every call in a trace, in the order
  made, and takes the outcome of each fallible call from a script of replies (a call made
  after the script is used up succeeds). \<open>ROk n\<close> is success, with \<open>n\<close> the affected-row
  count where the call is an \<open>Exec\<close>; \<open>RFail e\<close> is the error the engine returned.
  \<open>tx.Rollback\<close>, \<open>stmt.Close\<close> and \<open>time.Sleep\<close> have no result the code looks at: they
  are recorded and consume no reply.
\<close>

datatype stmt = Stmt (stmt_id: nat) (stmt_sql: string)

datatype event =
    EvQuery string "val list"
  | EvRowsErr
  | EvPrepare string
  | EvBegin
  | EvStmtExec stmt "val list"
  | EvExec string "val list"
  | EvCommit
  | EvRollback
  | EvClose stmt
  | EvSleep int

datatype reply = ROk int | RFail error

text \<open>
  \<open>type Manager struct\<close>: the two \<open>sync.Map\<close> caches are association lists with distinct
  keys (\<open>Load\<close> is \<open>map_of\<close>, \<open>Store\<close> is \<open>AList.update\<close>, \<open>Delete\<close> is \<open>AList.delete\<close>,
  \<open>Range\<close> visits the entries in list order). \<open>catalog\<close> is what
  \<open>information_schema.columns\<close> of the main database holds: for each table its column names
  by ordinal position. \<open>next_stmt\<close> numbers the statement handles, so that two handles are
  the same instance exactly when they are equal.
\<close>

record manager =
  tableSchemas :: "(string \<times> string list) list"
  preparedStmts :: "(string \<times> stmt) list"
  catalog :: "(string \<times> string list) list"
  replies :: "reply list"
  next_stmt :: nat
  trace :: "event list"

definition record_event :: "event \<Rightarrow> manager \<Rightarrow> manager" where
  "record_event ev s = s\<lparr>trace := trace s @ [ev]\<rparr>"

definition engine_call :: "event \<Rightarrow> manager \<Rightarrow> reply \<times> manager" where
  "engine_call ev s =
    (case replies s of
       [] \<Rightarrow> (ROk 0, record_event ev s)
     | r # rs \<Rightarrow> (r, record_event ev (s\<lparr>replies := rs\<rparr>)))"

text \<open>A Go \<open>map[string]interface{}\<close>, in the order a \<open>range\<close> over it yields its keys.\<close>

type_synonym gomap = "(string \<times> val) list"

text \<open>\<open>m[k]\<close> on a Go map: the zero value \<open>nil\<close> for an absent key.\<close>

definition index :: "gomap \<Rightarrow> string \<Rightarrow> val" where
  "index m k = (case map_of m k of Some v \<Rightarrow> v | None \<Rightarrow> VNil)"

text \<open>\<open>strings.Join\<close>.\<close>

fun Join :: "string list \<Rightarrow> string \<Rightarrow> string" where
  "Join [] sep = []"
| "Join [x] sep = x"
| "Join (x # y # ys) sep = x @ sep @ Join (y # ys) sep"

text \<open>
  A manager as \<open>NewManager\<close> leaves it: both caches empty, nothing recorded yet; over a
  main database with the given catalog and an engine that will give the given replies.
\<close>

definition new_manager :: "(string \<times> string list) list \<Rightarrow> reply list \<Rightarrow> manager" where
  "new_manager cat rs =
    \<lparr>tableSchemas = [], preparedStmts = [], catalog = cat, replies = rs,
     next_stmt = 0, trace = []\<rparr>"

subsection \<open>Conflict classification and the retry loop\<close>

definition maxRetries :: nat where
  "maxRetries = 3"

text \<open>\<open>baseRetryDelay = 50 * time.Millisecond\<close>; a \<open>time.Duration\<close> counts nanoseconds.\<close>

definition Millisecond :: int where
  "Millisecond = 1000000"

definition baseRetryDelay :: int where
  "baseRetryDelay = 50 * Millisecond"

text \<open>\<open>func isTransactionConflict(err error) bool\<close>; \<open>None\<close> is the \<open>nil\<close> error.\<close>

definition isTransactionConflict :: "error option \<Rightarrow> bool" where
  "isTransactionConflict err =
    (case err of
       None \<Rightarrow> False
     | Some e \<Rightarrow>
         (let errStr = ToLower (message e)
          in Contains errStr ''transaction conflict'' \<or> Contains errStr ''conflict on table''))"

text \<open>
  \<open>func retryOnConflict(fn func() error) error\<close>. The closures passed in the source set a
  captured \<open>result\<close> variable exactly when they return \<open>nil\<close>; here \<open>fn\<close> returns that
  result as \<open>Inr\<close>, and the error as \<open>Inl\<close>. \<open>retry_loop\<close> is the \<open>for\<close> loop from a given
  value of \<open>attempt\<close>, with \<open>lastErr\<close> as it stands. The delay is
  \<open>baseRetryDelay * 2 ^ attempt\<close> (the source computes the power in floating point, which
  is exact for these exponents).
\<close>

function retry_loop ::
  "(manager \<Rightarrow> (error + 'r) \<times> manager) \<Rightarrow> nat \<Rightarrow> error option \<Rightarrow> manager
    \<Rightarrow> (error + 'r) \<times> manager" where
  "retry_loop fn attempt lastErr s =
    (if attempt < maxRetries then
       (case fn s of
          (Inr r, s1) \<Rightarrow> (Inr r, s1)
        | (Inl err, s1) \<Rightarrow>
            if \<not> isTransactionConflict (Some err) then (Inl err, s1)
            else
              (let s2 = (if attempt < maxRetries - 1
                         then record_event (EvSleep (baseRetryDelay * 2 ^ attempt)) s1
                         else s1)
               in retry_loop fn (attempt + 1) (Some err) s2))
     else
       (case lastErr of
          Some e \<Rightarrow>
            (Inl (wrapf (''transaction failed after '' @ sprintf_d (int maxRetries) @ '' retries: '') e), s)
        | None \<Rightarrow>
            (Inl (errorf (''transaction failed after '' @ sprintf_d (int maxRetries)
                          @ '' retries: %!w(<nil>)'')), s)))"
  by pat_completeness auto
termination
  by (relation "measure (\<lambda>(fn, attempt, lastErr, s). maxRetries - attempt)") auto

declare retry_loop.simps [simp del]

definition retryOnConflict ::
  "(manager \<Rightarrow> (error + 'r) \<times> manager) \<Rightarrow> manager \<Rightarrow> (error + 'r) \<times> manager" where
  "retryOnConflict fn s = retry_loop fn 0 None s"

text \<open>The time slept so far: the sum of the delays in the trace.\<close>

fun slept :: "event list \<Rightarrow> int" where
  "slept [] = 0"
| "slept (EvSleep d # es) = d + slept es"
| "slept (e # es) = slept es"

text \<open>The delays of the sleeps in a trace, in order.\<close>

fun sleeps :: "event list \<Rightarrow> int list" where
  "sleeps [] = []"
| "sleeps (EvSleep d # es) = d # sleeps es"
| "sleeps (e # es) = sleeps es"

subsection \<open>Schema cache\<close>

definition schema_query :: string where
  "schema_query = ''SELECT column_name FROM information_schema.columns WHERE table_name = $1 ORDER BY ordinal_position''"

text \<open>
  \<open>func (m *Manager) getTableColumns(table string) ([]string, error)\<close>. Scanning a column
  name into a \<open>string\<close> is taken not to fail; the query itself and \<open>rows.Err()\<close> may.
\<close>

definition getTableColumns :: "string \<Rightarrow> manager \<Rightarrow> (error + string list) \<times> manager" where
  "getTableColumns table s =
    (case map_of (tableSchemas s) table of
       Some cached \<Rightarrow> (Inr cached, s)
     | None \<Rightarrow>
         (case engine_call (EvQuery schema_query [VStr table]) s of
            (RFail e, s1) \<Rightarrow> (Inl (wrapf ''failed to query table schema: '' e), s1)
          | (ROk _, s1) \<Rightarrow>
              (let columns = (case map_of (catalog s1) table of Some cs \<Rightarrow> cs | None \<Rightarrow> [])
               in case engine_call EvRowsErr s1 of
                    (RFail e, s2) \<Rightarrow> (Inl (wrapf ''error iterating columns: '' e), s2)
                  | (ROk _, s2) \<Rightarrow>
                      if length columns = 0
                      then (Inl (errorf (''table '' @ [CHR 0x27] @ table @ [CHR 0x27]
                                         @ '' has no columns or does not exist'')), s2)
                      else (Inr columns,
                            s2\<lparr>tableSchemas := AList.update table columns (tableSchemas s2)\<rparr>))))"

text \<open>
  \<open>func (m *Manager) InvalidateTableSchema(table string)\<close>. \<open>range_stmts\<close> is the callback of
  \<open>preparedStmts.Range\<close> run over the entries; the test on the key is the source's
  \<open>len(stmtKey) >= len(table) && stmtKey[:len(table)] == table\<close>.
\<close>

fun range_stmts :: "string \<Rightarrow> (string \<times> stmt) list \<Rightarrow> manager \<Rightarrow> manager" where
  "range_stmts table [] s = s"
| "range_stmts table ((stmtKey, st) # rest) s =
    (if length stmtKey \<ge> length table \<and> take (length table) stmtKey = table
     then range_stmts table rest
            ((record_event (EvClose st) s)\<lparr>preparedStmts := AList.delete stmtKey (preparedStmts s)\<rparr>)
     else range_stmts table rest s)"

definition InvalidateTableSchema :: "string \<Rightarrow> manager \<Rightarrow> manager" where
  "InvalidateTableSchema table s =
    (let s1 = s\<lparr>tableSchemas := AList.delete table (tableSchemas s)\<rparr>
     in range_stmts table (preparedStmts s1) s1)"

subsection \<open>Transactions\<close>

text \<open>
  The deferred \<open>tx.Rollback()\<close> runs when the closure returns, after a successful
  \<open>BeginTxMain\<close>; its result is dropped.
\<close>

definition rollback :: "manager \<Rightarrow> manager" where
  "rollback s = record_event EvRollback s"

text \<open>
  The part the three statement-based closures share, from \<open>m.BeginTxMain()\<close> on:
  begin, \<open>tx.Stmt(stmt).Exec(values...)\<close>, commit, and the affected-row count.
  \<open>what\<close> is the word in the error message (\<open>insert\<close>, \<open>update\<close>, \<open>delete\<close>).
\<close>

definition run_tx :: "string \<Rightarrow> event \<Rightarrow> manager \<Rightarrow> (error + int) \<times> manager" where
  "run_tx what exec s =
    (case engine_call EvBegin s of
       (RFail e, s1) \<Rightarrow> (Inl (wrapf ''failed to begin transaction: '' e), s1)
     | (ROk _, s1) \<Rightarrow>
         (case engine_call exec s1 of
            (RFail e, s2) \<Rightarrow> (Inl (wrapf (''failed to execute '' @ what @ '': '') e), rollback s2)
          | (ROk rowsAffected, s2) \<Rightarrow>
              (case engine_call EvCommit s2 of
                 (RFail e, s3) \<Rightarrow> (Inl (wrapf ''failed to commit transaction: '' e), rollback s3)
               | (ROk _, s3) \<Rightarrow> (Inr rowsAffected, rollback s3))))"

subsection \<open>Insert\<close>

text \<open>\<open>placeholders[i] = fmt.Sprintf("$%d", i+1)\<close> for each index of \<open>columns\<close>.\<close>

definition placeholders :: "string list \<Rightarrow> string list" where
  "placeholders columns = map (\<lambda>i. ''$'' @ sprintf_d (int i + 1)) [0..<length columns]"

definition insert_key :: "string \<Rightarrow> string" where
  "insert_key table = table @ '':insert''"

text \<open>
  Storing a freshly prepared statement under a key: \<open>m.mainDB.Prepare(query)\<close>, then
  \<open>m.preparedStmts.Store(stmtKey, stmt)\<close>. The three \<open>getOrPrepare\<close> functions end this way.
\<close>

definition prepare_and_store :: "string \<Rightarrow> string \<Rightarrow> manager \<Rightarrow> (error + stmt) \<times> manager" where
  "prepare_and_store stmtKey query s =
    (case engine_call (EvPrepare query) s of
       (RFail e, s1) \<Rightarrow> (Inl (wrapf ''failed to prepare statement: '' e), s1)
     | (ROk _, s1) \<Rightarrow>
         (let st = Stmt (next_stmt s1) query
          in (Inr st, s1\<lparr>preparedStmts := AList.update stmtKey st (preparedStmts s1),
                          next_stmt := Suc (next_stmt s1)\<rparr>)))"

text \<open>\<open>func (m *Manager) getOrPrepareInsert(table string, columns []string) (*sql.Stmt, error)\<close>.\<close>

definition getOrPrepareInsert :: "string \<Rightarrow> string list \<Rightarrow> manager \<Rightarrow> (error + stmt) \<times> manager" where
  "getOrPrepareInsert table columns s =
    (let stmtKey = insert_key table
     in case map_of (preparedStmts s) stmtKey of
          Some cached \<Rightarrow> (Inr cached, s)
        | None \<Rightarrow>
            (let query = ''INSERT INTO '' @ table @ '' ('' @ Join columns '', '' @ '') VALUES (''
                         @ Join (placeholders columns) '', '' @ '')''
             in prepare_and_store stmtKey query s))"

text \<open>
  The value list of an insert: for each column of the table, in order, the caller's value
  if the field map has the column, \<open>nil\<close> otherwise.
\<close>

definition insert_values :: "string list \<Rightarrow> gomap \<Rightarrow> val list" where
  "insert_values columns data =
    map (\<lambda>col. case map_of data col of Some v \<Rightarrow> v | None \<Rightarrow> VNil) columns"

text \<open>The closure that \<open>Insert\<close> passes to \<open>retryOnConflict\<close>: one attempt.\<close>

definition insert_attempt :: "string \<Rightarrow> string list \<Rightarrow> gomap \<Rightarrow> manager \<Rightarrow> (error + int) \<times> manager" where
  "insert_attempt table columns data s =
    (case getOrPrepareInsert table columns s of
       (Inl e, s1) \<Rightarrow> (Inl (wrapf ''failed to prepare insert statement: '' e), s1)
     | (Inr st, s1) \<Rightarrow> run_tx ''insert'' (EvStmtExec st (insert_values columns data)) s1)"

text \<open>
  \<open>func (m *Manager) Insert(table string, data map[string]interface{}) (*InsertResult, error)\<close>;
  the result is the \<open>RowsAffected\<close> of the \<open>InsertResult\<close>.
\<close>

definition Insert :: "string \<Rightarrow> gomap \<Rightarrow> manager \<Rightarrow> (error + int) \<times> manager" where
  "Insert table data s =
    (if length data = 0 then (Inl (errorf ''no data provided for insert''), s)
     else
       (case getTableColumns table s of
          (Inl e, s1) \<Rightarrow> (Inl (wrapf ''failed to get table schema: '' e), s1)
        | (Inr columns, s1) \<Rightarrow> retryOnConflict (insert_attempt table columns data) s1))"

subsection \<open>Column order\<close>

text \<open>
  The local \<open>sortStrings\<close> of the update and delete paths:
  \<^verbatim>\<open>for i := 0; i < len(s); i++ { for j := i + 1; j < len(s); j++ {
     if s[i] > s[j] { s[i], s[j] = s[j], s[i] } } }\<close>
  \<open>n\<close> is \<open>len(s)\<close>, which the swaps do not change.
\<close>

function sort_inner :: "nat \<Rightarrow> string list \<Rightarrow> nat \<Rightarrow> nat \<Rightarrow> string list" where
  "sort_inner n s i j =
    (if j < n then
       sort_inner n (if s ! i > s ! j then s[i := s ! j, j := s ! i] else s) i (j + 1)
     else s)"
  by pat_completeness auto
termination
  by (relation "measure (\<lambda>(n, s, i, j). n - j)") auto

declare sort_inner.simps [simp del]

function sort_outer :: "nat \<Rightarrow> string list \<Rightarrow> nat \<Rightarrow> string list" where
  "sort_outer n s i =
    (if i < n then sort_outer n (sort_inner n s i (i + 1)) (i + 1) else s)"
  by pat_completeness auto
termination
  by (relation "measure (\<lambda>(n, s, i). n - i)") auto

declare sort_outer.simps [simp del]

definition sortStrings :: "string list \<Rightarrow> string list" where
  "sortStrings s = sort_outer (length s) s 0"

text \<open>\<open>for col := range m { cols = append(cols, col) }\<close>.\<close>

definition keys_of :: "gomap \<Rightarrow> string list" where
  "keys_of m = map fst m"

subsection \<open>Update\<close>

definition update_key :: "string \<Rightarrow> string list \<Rightarrow> string list \<Rightarrow> string" where
  "update_key table setCols whereCols =
    table @ '':update:set='' @ Join setCols '','' @ '':where='' @ Join whereCols '',''"

text \<open>\<open>clauses[i] = fmt.Sprintf("%s = $%d", col, base+i+1)\<close> for each column.\<close>

definition eq_clauses :: "nat \<Rightarrow> string list \<Rightarrow> string list" where
  "eq_clauses base cols =
    map (\<lambda>(i, col). col @ '' = $'' @ sprintf_d (int (base + i + 1))) (enumerate 0 cols)"

text \<open>
  \<open>func (m *Manager) getOrPrepareUpdate(table, set, where)\<close> returns the statement and the
  two sorted column lists.
\<close>

definition getOrPrepareUpdate ::
  "string \<Rightarrow> gomap \<Rightarrow> gomap \<Rightarrow> manager \<Rightarrow> (error + stmt \<times> string list \<times> string list) \<times> manager" where
  "getOrPrepareUpdate table setMap whereMap s =
    (let setCols = sortStrings (keys_of setMap);
         whereCols = sortStrings (keys_of whereMap);
         stmtKey = update_key table setCols whereCols
     in case map_of (preparedStmts s) stmtKey of
          Some cached \<Rightarrow> (Inr (cached, setCols, whereCols), s)
        | None \<Rightarrow>
            (let query = ''UPDATE '' @ table @ '' SET '' @ Join (eq_clauses 0 setCols) '', ''
                         @ '' WHERE '' @ Join (eq_clauses (length setCols) whereCols) '' AND ''
             in case prepare_and_store stmtKey query s of
                  (Inl e, s1) \<Rightarrow> (Inl e, s1)
                | (Inr st, s1) \<Rightarrow> (Inr (st, setCols, whereCols), s1)))"

definition update_attempt :: "string \<Rightarrow> gomap \<Rightarrow> gomap \<Rightarrow> manager \<Rightarrow> (error + int) \<times> manager" where
  "update_attempt table setMap whereMap s =
    (case getOrPrepareUpdate table setMap whereMap s of
       (Inl e, s1) \<Rightarrow> (Inl (wrapf ''failed to prepare update statement: '' e), s1)
     | (Inr (st, setCols, whereCols), s1) \<Rightarrow>
         (let values = map (index setMap) setCols @ map (index whereMap) whereCols
          in run_tx ''update'' (EvStmtExec st values) s1))"

text \<open>\<open>func (m *Manager) Update(table, set, where) (*UpdateResult, error)\<close>.\<close>

definition Update :: "string \<Rightarrow> gomap \<Rightarrow> gomap \<Rightarrow> manager \<Rightarrow> (error + int) \<times> manager" where
  "Update table setMap whereMap s =
    (if length setMap = 0 then (Inl (errorf ''no data provided for update''), s)
     else if length whereMap = 0
     then (Inl (errorf ''no where clause provided for update (use DELETE with caution)''), s)
     else retryOnConflict (update_attempt table setMap whereMap) s)"

text \<open>
  The loop over the filters in \<open>UpdateWithFilters\<close> and \<open>DeleteWithFilters\<close>: every clause is
  kept; the value is appended, and \<open>paramIndex\<close> advanced, only when the value is not \<open>nil\<close>.
\<close>

fun where_loop ::
  "Filter list \<Rightarrow> string list \<Rightarrow> val list \<Rightarrow> int \<Rightarrow> string list \<times> val list \<times> int" where
  "where_loop [] whereClauses values paramIndex = (whereClauses, values, paramIndex)"
| "where_loop (f # fs) whereClauses values paramIndex =
    (case ToSQL f paramIndex of
       (clause, v) \<Rightarrow>
         if v \<noteq> VNil then where_loop fs (whereClauses @ [clause]) (values @ [v]) (paramIndex + 1)
         else where_loop fs (whereClauses @ [clause]) values paramIndex)"

text \<open>\<open>func (m *Manager) UpdateWithFilters(table, set, filters) (*UpdateResult, error)\<close>.\<close>

definition UpdateWithFilters :: "string \<Rightarrow> gomap \<Rightarrow> Filter list \<Rightarrow> manager \<Rightarrow> (error + int) \<times> manager" where
  "UpdateWithFilters table setMap filters s =
    (if length setMap = 0 then (Inl (errorf ''no data provided for update''), s)
     else if length filters = 0
     then (Inl (errorf ''no filters provided for update (safety check)''), s)
     else
       (let setCols = sortStrings (keys_of setMap);
            setClauses = eq_clauses 0 setCols;
            (whereClauses, values, paramIndex) =
               where_loop filters [] (map (index setMap) setCols) (1 + int (length setCols));
            query = ''UPDATE '' @ table @ '' SET '' @ Join setClauses '', ''
                    @ '' WHERE '' @ Join whereClauses '' AND ''
        in retryOnConflict (run_tx ''update'' (EvExec query values)) s))"

subsection \<open>Delete\<close>

definition delete_key :: "string \<Rightarrow> string list \<Rightarrow> string" where
  "delete_key table whereCols = table @ '':delete:where='' @ Join whereCols '',''"

text \<open>\<open>func (m *Manager) getOrPrepareDelete(table, where)\<close>.\<close>

definition getOrPrepareDelete ::
  "string \<Rightarrow> gomap \<Rightarrow> manager \<Rightarrow> (error + stmt \<times> string list) \<times> manager" where
  "getOrPrepareDelete table whereMap s =
    (let whereCols = sortStrings (keys_of whereMap);
         stmtKey = delete_key table whereCols
     in case map_of (preparedStmts s) stmtKey of
          Some cached \<Rightarrow> (Inr (cached, whereCols), s)
        | None \<Rightarrow>
            (let query = ''DELETE FROM '' @ table @ '' WHERE '' @ Join (eq_clauses 0 whereCols) '' AND ''
             in case prepare_and_store stmtKey query s of
                  (Inl e, s1) \<Rightarrow> (Inl e, s1)
                | (Inr st, s1) \<Rightarrow> (Inr (st, whereCols), s1)))"

definition delete_attempt :: "string \<Rightarrow> gomap \<Rightarrow> manager \<Rightarrow> (error + int) \<times> manager" where
  "delete_attempt table whereMap s =
    (case getOrPrepareDelete table whereMap s of
       (Inl e, s1) \<Rightarrow> (Inl (wrapf ''failed to prepare delete statement: '' e), s1)
     | (Inr (st, whereCols), s1) \<Rightarrow>
         run_tx ''delete'' (EvStmtExec st (map (index whereMap) whereCols)) s1)"

text \<open>\<open>func (m *Manager) Delete(table, where) (*DeleteResult, error)\<close>.\<close>

definition Delete :: "string \<Rightarrow> gomap \<Rightarrow> manager \<Rightarrow> (error + int) \<times> manager" where
  "Delete table whereMap s =
    (if length whereMap = 0
     then (Inl (errorf ''no where clause provided for delete (safety check)''), s)
     else retryOnConflict (delete_attempt table whereMap) s)"

text \<open>\<open>func (m *Manager) DeleteWithFilters(table, filters) (*DeleteResult, error)\<close>.\<close>

definition DeleteWithFilters :: "string \<Rightarrow> Filter list \<Rightarrow> manager \<Rightarrow> (error + int) \<times> manager" where
  "DeleteWithFilters table filters s =
    (if length filters = 0
     then (Inl (errorf ''no filters provided for delete (safety check)''), s)
     else
       (let (whereClauses, values, paramIndex) = where_loop filters [] [] 1;
            query = ''DELETE FROM '' @ table @ '' WHERE '' @ Join whereClauses '' AND ''
        in retryOnConflict (run_tx ''delete'' (EvExec query values)) s))"

section \<open>The authorizer\<close>

subsection \<open>The credential store\<close>

text \<open>
  \<open>type APIKey struct\<close> and \<open>type Permission struct\<close>; a \<open>time.Time\<close> is a count of
  nanoseconds, a \<open>*time.Time\<close> that may be \<open>nil\<close> an option. Both structs have a field
  \<open>RoleName\<close>; the one of \<open>Permission\<close> is \<open>PermRoleName\<close> here.
\<close>

record APIKey =
  Key :: string
  RoleName :: string
  CreatedAt :: int
  ExpiresAt :: "int option"
  IsActive :: bool

record Permission =
  ID :: int
  PermRoleName :: string
  TableName :: string
  CanCreate :: bool
  CanRead :: bool
  CanUpdate :: bool
  CanDelete :: bool
  CanQuery :: bool

type_synonym Operation = string

definition OperationCreate :: Operation where "OperationCreate = ''create''"
definition OperationRead :: Operation where "OperationRead = ''read''"
definition OperationUpdate :: Operation where "OperationUpdate = ''update''"
definition OperationDelete :: Operation where "OperationDelete = ''delete''"
definition OperationQuery :: Operation where "OperationQuery = ''query''"

text \<open>
  The auth database: the rows of its three tables (\<open>roles\<close> with primary key \<open>role_name\<close>,
  \<open>api_keys\<close> with primary key \<open>key\<close> and a foreign key to \<open>roles\<close>, \<open>permissions\<close>).
  \<open>db_error\<close>, when set, is the error with which every statement fails for reasons of its
  own (closed pool, timeout).
\<close>

record authdb =
  roles :: "(string \<times> string) list"
  api_keys :: "APIKey list"
  permissions :: "Permission list"
  db_error :: "error option"

text \<open>
  \<open>type Authorizer struct\<close>. The two caches are \<open>expirable.LRU\<close> values of an external
  package; they are association lists here, with \<open>Get\<close> as \<open>map_of\<close>, \<open>Add\<close> as
  \<open>AList.update\<close>, \<open>Remove\<close> as \<open>AList.delete\<close> and \<open>Purge\<close> as the empty list. The
  capacity bound and the time-to-live of the package, which only ever drop entries, are
  not modelled.
\<close>

record authorizer =
  authDB :: authdb
  permissionCache :: "(string \<times> bool) list"
  apiKeyCache :: "(string \<times> APIKey) list"

text \<open>\<open>func NewAuthorizer(authDB *sql.DB) *Authorizer\<close>: both caches start empty.\<close>

definition NewAuthorizer :: "authdb \<Rightarrow> authorizer" where
  "NewAuthorizer db = \<lparr>authDB = db, permissionCache = [], apiKeyCache = []\<rparr>"

text \<open>
  A credential store for the examples: the role \<open>analyst\<close> may read \<open>orders\<close> and nothing
  else; the role \<open>reader\<close> may read every table through a wildcard record, except
  \<open>secrets\<close>, for which it has a record of its own that allows nothing.
\<close>

definition scenario_db :: authdb where
  "scenario_db =
    \<lparr>roles = [(''analyst'', ''Reads orders''), (''reader'', ''Read-only access'')],
     api_keys = [],
     permissions =
       [\<lparr>ID = 1, PermRoleName = ''analyst'', TableName = ''orders'', CanCreate = False,
         CanRead = True, CanUpdate = False, CanDelete = False, CanQuery = False\<rparr>,
        \<lparr>ID = 2, PermRoleName = ''reader'', TableName = ''*'', CanCreate = False,
         CanRead = True, CanUpdate = False, CanDelete = False, CanQuery = False\<rparr>,
        \<lparr>ID = 3, PermRoleName = ''reader'', TableName = ''secrets'', CanCreate = False,
         CanRead = False, CanUpdate = False, CanDelete = False, CanQuery = False\<rparr>],
     db_error = None\<rparr>"

text \<open>\<open>t != nil && t.Before(now)\<close>.\<close>

definition expired :: "int option \<Rightarrow> int \<Rightarrow> bool" where
  "expired expiresAt now = (case expiresAt of Some t \<Rightarrow> t < now | None \<Rightarrow> False)"

text \<open>
  \<open>func (a *Authorizer) authenticateAPIKeyDB(apiKey string) (*APIKey, error)\<close>: the row of
  \<open>SELECT ... FROM api_keys WHERE key = $1 AND is_active = true\<close>, if any; \<open>now\<close> is what
  \<open>time.Now()\<close> returns.
\<close>

definition authenticateAPIKeyDB :: "string \<Rightarrow> int \<Rightarrow> authdb \<Rightarrow> error + APIKey" where
  "authenticateAPIKeyDB apiKey now db =
    (case db_error db of
       Some e \<Rightarrow> Inl (wrapf ''failed to query API key: '' e)
     | None \<Rightarrow>
         (case find (\<lambda>r. Key r = apiKey \<and> IsActive r) (api_keys db) of
            None \<Rightarrow> Inl (errorf ''invalid API key'')
          | Some key \<Rightarrow>
              if expired (ExpiresAt key) now then Inl (errorf ''API key has expired'')
              else Inr key))"

text \<open>\<open>func (a *Authorizer) AuthenticateAPIKey(apiKey string) (*APIKey, error)\<close>.\<close>

definition AuthenticateAPIKey :: "string \<Rightarrow> int \<Rightarrow> authorizer \<Rightarrow> (error + APIKey) \<times> authorizer" where
  "AuthenticateAPIKey apiKey now a =
    (case map_of (apiKeyCache a) apiKey of
       Some cached \<Rightarrow>
         if expired (ExpiresAt cached) now
         then (Inl (errorf ''API key has expired''),
               a\<lparr>apiKeyCache := AList.delete apiKey (apiKeyCache a)\<rparr>)
         else (Inr cached, a)
     | None \<Rightarrow>
         (case authenticateAPIKeyDB apiKey now (authDB a) of
            Inl err \<Rightarrow> (Inl err, a)
          | Inr key \<Rightarrow> (Inr key, a\<lparr>apiKeyCache := AList.update apiKey key (apiKeyCache a)\<rparr>)))"

text \<open>\<open>func (a *Authorizer) InvalidateAPIKey(apiKey string)\<close>.\<close>

definition InvalidateAPIKey :: "string \<Rightarrow> authorizer \<Rightarrow> authorizer" where
  "InvalidateAPIKey apiKey a = a\<lparr>apiKeyCache := AList.delete apiKey (apiKeyCache a)\<rparr>"

text \<open>
  The errors of the engine for a violated primary key and a violated foreign key; their
  text is the engine's.
\<close>

definition duplicate_key_error :: error where
  "duplicate_key_error = errorf ''Constraint Error: Duplicate key violates primary key constraint''"

definition foreign_key_error :: error where
  "foreign_key_error = errorf ''Constraint Error: Violates foreign key constraint''"

text \<open>
  \<open>func (a *Authorizer) CreateAPIKey(apiKey, roleName string, expiresAt *time.Time) error\<close>:
  \<open>INSERT INTO api_keys (key, role_name, expires_at)\<close>, with the defaults of the table for
  \<open>created_at\<close> (the current time) and \<open>is_active\<close> (true).
\<close>

definition CreateAPIKey ::
  "string \<Rightarrow> string \<Rightarrow> int option \<Rightarrow> int \<Rightarrow> authorizer \<Rightarrow> error option \<times> authorizer" where
  "CreateAPIKey apiKey roleName expiresAt now a =
    (let db = authDB a;
         res = (case db_error db of
                  Some e \<Rightarrow> Inl e
                | None \<Rightarrow>
                    if apiKey \<in> set (map Key (api_keys db)) then Inl duplicate_key_error
                    else if roleName \<notin> set (map fst (roles db)) then Inl foreign_key_error
                    else Inr (db\<lparr>api_keys := api_keys db
                                @ [\<lparr>Key = apiKey, RoleName = roleName, CreatedAt = now,
                                    ExpiresAt = expiresAt, IsActive = True\<rparr>]\<rparr>))
     in case res of
          Inl err \<Rightarrow> (Some (wrapf ''failed to create API key: '' err), a)
        | Inr db1 \<Rightarrow> (None, a\<lparr>authDB := db1\<rparr>))"

text \<open>
  \<open>func (a *Authorizer) RevokeAPIKey(apiKey string) error\<close>:
  \<open>UPDATE api_keys SET is_active = false WHERE key = $1\<close>; \<open>rows\<close> counts the rows with
  that key.
\<close>

definition RevokeAPIKey :: "string \<Rightarrow> authorizer \<Rightarrow> error option \<times> authorizer" where
  "RevokeAPIKey apiKey a =
    (let db = authDB a
     in case db_error db of
          Some err \<Rightarrow> (Some (wrapf ''failed to revoke API key: '' err), a)
        | None \<Rightarrow>
            (let rows = length (filter (\<lambda>r. Key r = apiKey) (api_keys db));
                 a1 = a\<lparr>authDB := db\<lparr>api_keys :=
                          map (\<lambda>r. if Key r = apiKey then r\<lparr>IsActive := False\<rparr> else r)
                              (api_keys db)\<rparr>\<rparr>
             in if rows = 0 then (Some (errorf ''API key not found''), a1)
                else (None, InvalidateAPIKey apiKey a1)))"

text \<open>
  The example store after \<open>CreateAPIKey\<close> has given the role \<open>analyst\<close> a key at time 100,
  with the given expiration; no authentication has happened yet.
\<close>

definition with_key :: "string \<Rightarrow> int option \<Rightarrow> authorizer" where
  "with_key apiKey expiresAt =
    snd (CreateAPIKey apiKey ''analyst'' expiresAt 100 (NewAuthorizer scenario_db))"

subsection \<open>Permissions\<close>

text \<open>
  The row that the query of \<open>checkPermissionDB\<close> returns:
  \<^verbatim>\<open>WHERE role_name = $1 AND (table_name = $2 OR table_name = '*')
  ORDER BY CASE WHEN table_name = $2 THEN 1 ELSE 2 END LIMIT 1\<close>
\<close>

definition permission_query :: "string \<Rightarrow> string \<Rightarrow> Permission list \<Rightarrow> Permission option" where
  "permission_query roleName tableName rows =
    (let matching = filter (\<lambda>p. PermRoleName p = roleName
                                \<and> (TableName p = tableName \<or> TableName p = ''*'')) rows;
         ordered = filter (\<lambda>p. TableName p = tableName) matching
                   @ filter (\<lambda>p. TableName p \<noteq> tableName) matching
     in case ordered of [] \<Rightarrow> None | p # _ \<Rightarrow> Some p)"

text \<open>
  \<open>func (a *Authorizer) checkPermissionDB(roleName, tableName string, operation Operation)
  (bool, error)\<close>; the pair is the Go result, \<open>None\<close> the \<open>nil\<close> error.
\<close>

definition checkPermissionDB :: "string \<Rightarrow> string \<Rightarrow> Operation \<Rightarrow> authdb \<Rightarrow> bool \<times> error option" where
  "checkPermissionDB roleName tableName operation db =
    (case db_error db of
       Some err \<Rightarrow> (False, Some (wrapf ''failed to query permissions: '' err))
     | None \<Rightarrow>
         (case permission_query roleName tableName (permissions db) of
            None \<Rightarrow> (False, None)
          | Some perm \<Rightarrow>
              if operation = OperationCreate then (CanCreate perm, None)
              else if operation = OperationRead then (CanRead perm, None)
              else if operation = OperationUpdate then (CanUpdate perm, None)
              else if operation = OperationDelete then (CanDelete perm, None)
              else if operation = OperationQuery then (CanQuery perm, None)
              else (False, Some (errorf (''unknown operation: '' @ operation)))))"

definition permission_key :: "string \<Rightarrow> string \<Rightarrow> Operation \<Rightarrow> string" where
  "permission_key roleName tableName operation = roleName @ '':'' @ tableName @ '':'' @ operation"

text \<open>
  \<open>func (a *Authorizer) CheckPermission(roleName, tableName string, operation Operation)
  (bool, error)\<close>.
\<close>

definition CheckPermission ::
  "string \<Rightarrow> string \<Rightarrow> Operation \<Rightarrow> authorizer \<Rightarrow> (bool \<times> error option) \<times> authorizer" where
  "CheckPermission roleName tableName operation a =
    (let cacheKey = permission_key roleName tableName operation
     in case map_of (permissionCache a) cacheKey of
          Some cached \<Rightarrow> ((cached, None), a)
        | None \<Rightarrow>
            (case checkPermissionDB roleName tableName operation (authDB a) of
               (allowed, Some err) \<Rightarrow> ((False, Some err), a)
             | (allowed, None) \<Rightarrow>
                 ((allowed, None),
                  a\<lparr>permissionCache := AList.update cacheKey allowed (permissionCache a)\<rparr>)))"

text \<open>
  The permission record that decides for a role and a table, as the data model states it:
  the record of the role for exactly that table if there is one, else the record of the
  role for the table \<open>*\<close>, else none.
\<close>

definition resolved_permission :: "string \<Rightarrow> string \<Rightarrow> Permission list \<Rightarrow> Permission option" where
  "resolved_permission roleName tableName rows =
    (case find (\<lambda>p. PermRoleName p = roleName \<and> TableName p = tableName) rows of
       Some p \<Rightarrow> Some p
     | None \<Rightarrow> find (\<lambda>p. PermRoleName p = roleName \<and> TableName p = ''*'') rows)"

text \<open>The flag of a permission record for one of the five operations.\<close>

definition operation_flag :: "Operation \<Rightarrow> Permission \<Rightarrow> bool" where
  "operation_flag operation p =
    (if operation = ''create'' then CanCreate p
     else if operation = ''read'' then CanRead p
     else if operation = ''update'' then CanUpdate p
     else if operation = ''delete'' then CanDelete p
     else CanQuery p)"

section \<open>Properties of the filter and sort translation\<close>










lemma sprintf_d_digit: "0 \<le> i \<Longrightarrow> i < 10 \<Longrightarrow> sprintf_d i = [digit_char (nat i)]"
  by (simp add: sprintf_d_def nat_dec.simps)










text \<open>
  Claim C10. A filter whose operator is none of the eight defined ones is translated
  without failure, to the equality predicate: the same fragment and the same bound value
  as \<open>eq\<close> gives for that column, parameter index and value.
\<close>

theorem unknown_operator_is_eq:
  "Operator f \<notin> {''eq'', ''ne'', ''gt'', ''gte'', ''lt'', ''lte'', ''like'', ''in''}
   \<Longrightarrow> ToSQL f n = (Column f @ '' = $'' @ sprintf_d n, Value f)
       \<and> ToSQL f n = ToSQL (f\<lparr>Operator := ''eq''\<rparr>) n"
  by (simp add: ToSQL_def)

theorem unknown_operator_is_eq_witness:
  "ToSQL \<lparr>Column = ''age'', Operator = ''between'', Value = VInt 30\<rparr> 1 = (''age = $1'', VInt 30)
   \<and> ToSQL \<lparr>Column = ''age'', Operator = ''between'', Value = VInt 30\<rparr> 1
      = ToSQL \<lparr>Column = ''age'', Operator = ''eq'', Value = VInt 30\<rparr> 1"
proof -
  let ?f = "\<lparr>Column = ''age'', Operator = ''between'', Value = VInt 30\<rparr>"
  have h: "Operator ?f \<notin> {''eq'', ''ne'', ''gt'', ''gte'', ''lt'', ''lte'', ''like'', ''in''}"
    by simp
  have d: "sprintf_d 1 = ''1''"
    by (simp add: sprintf_d_digit digit_char_def)
  from unknown_operator_is_eq [OF h, of 1] show ?thesis
    by (simp add: d ToSQL_def)
qed

section \<open>Properties of the retry loop\<close>

lemma maxRetries_text: "sprintf_d (int maxRetries) = ''3''"
  by (simp add: maxRetries_def sprintf_d_digit digit_char_def)

lemma retry_loop_done:
  "retry_loop fn (Suc (Suc (Suc 0))) (Some e) s
   = (Inl (wrapf ''transaction failed after 3 retries: '' e), s)"
  by (subst retry_loop.simps) (simp add: maxRetries_text, simp add: maxRetries_def)

lemma retry_loop_ok:
  "attempt < 3 \<Longrightarrow> fn s = (Inr r, s1) \<Longrightarrow> retry_loop fn attempt l s = (Inr r, s1)"
  by (subst retry_loop.simps) (simp add: maxRetries_def)

lemma retry_loop_terminal:
  "attempt < 3 \<Longrightarrow> fn s = (Inl e, s1) \<Longrightarrow> \<not> isTransactionConflict (Some e)
   \<Longrightarrow> retry_loop fn attempt l s = (Inl e, s1)"
  by (subst retry_loop.simps) (simp add: maxRetries_def)

lemma retry_loop_conflict_0:
  "fn s = (Inl e, s1) \<Longrightarrow> isTransactionConflict (Some e)
   \<Longrightarrow> retry_loop fn 0 l s
       = retry_loop fn (Suc 0) (Some e) (record_event (EvSleep (50 * Millisecond)) s1)"
  by (subst retry_loop.simps) (simp add: maxRetries_def baseRetryDelay_def)

lemma retry_loop_conflict_1:
  "fn s = (Inl e, s1) \<Longrightarrow> isTransactionConflict (Some e)
   \<Longrightarrow> retry_loop fn (Suc 0) l s
       = retry_loop fn (Suc (Suc 0)) (Some e) (record_event (EvSleep (100 * Millisecond)) s1)"
  by (subst retry_loop.simps) (simp add: maxRetries_def baseRetryDelay_def)

lemma retry_loop_conflict_2:
  "fn s = (Inl e, s1) \<Longrightarrow> isTransactionConflict (Some e)
   \<Longrightarrow> retry_loop fn (Suc (Suc 0)) l s = retry_loop fn (Suc (Suc (Suc 0))) (Some e) s1"
  by (subst retry_loop.simps) (simp add: maxRetries_def)

lemma slept_append: "slept (es @ fs) = slept es + slept fs"
  by (induction es rule: slept.induct) simp_all

lemma slept_sleep: "slept (trace (record_event (EvSleep d) s)) = slept (trace s) + d"
  by (simp add: record_event_def slept_append)

text \<open>
  Claim C2 (as amended). Whether an error counts as a conflict depends only on its message
  with upper case turned to lower case. An attempt that succeeds ends the loop with its
  result. An error
  that is not classified as a conflict is returned at once, as it is, with no sleep and no
  further attempt, whether it comes from the first, the second or the third attempt. After
  a conflict on the first attempt the loop sleeps 50ms and tries again; after a conflict on
  the second it sleeps 100ms and tries a third time; after a conflict on the third attempt
  it does not sleep and returns an error that wraps the last conflict error and states the
  count 3. Conflicts on attempts one and two followed by success yield that success, and
  if the attempts themselves do not sleep the time slept grows by exactly 150ms.
\<close>

theorem retry_on_conflict:
  "(ToLower (message e1) = ToLower (message e4)
      \<longrightarrow> isTransactionConflict (Some e1) = isTransactionConflict (Some e4))
   \<and> (fn s = (Inr r, s1) \<longrightarrow> retryOnConflict fn s = (Inr r, s1))
   \<and> (fn s = (Inl e1, s1) \<and> \<not> isTransactionConflict (Some e1)
        \<longrightarrow> retryOnConflict fn s = (Inl e1, s1))
   \<and> (fn s = (Inl e1, s1) \<and> isTransactionConflict (Some e1)
        \<and> fn (record_event (EvSleep (50 * Millisecond)) s1) = (Inl e2, s2)
        \<and> \<not> isTransactionConflict (Some e2)
        \<longrightarrow> retryOnConflict fn s = (Inl e2, s2))
   \<and> (fn s = (Inl e1, s1) \<and> isTransactionConflict (Some e1)
        \<and> fn (record_event (EvSleep (50 * Millisecond)) s1) = (Inl e2, s2)
        \<and> isTransactionConflict (Some e2)
        \<and> fn (record_event (EvSleep (100 * Millisecond)) s2) = (Inl e3, s3)
        \<and> \<not> isTransactionConflict (Some e3)
        \<longrightarrow> retryOnConflict fn s = (Inl e3, s3))
   \<and> (fn s = (Inl e1, s1) \<and> isTransactionConflict (Some e1)
        \<and> fn (record_event (EvSleep (50 * Millisecond)) s1) = (Inl e2, s2)
        \<and> isTransactionConflict (Some e2)
        \<and> fn (record_event (EvSleep (100 * Millisecond)) s2) = (Inr r, s3)
        \<longrightarrow> retryOnConflict fn s = (Inr r, s3)
            \<and> (slept (trace s1) = slept (trace s)
                 \<and> slept (trace s2) = slept (trace (record_event (EvSleep (50 * Millisecond)) s1))
                 \<and> slept (trace s3) = slept (trace (record_event (EvSleep (100 * Millisecond)) s2))
                 \<longrightarrow> slept (trace s3) = slept (trace s) + 150 * Millisecond))
   \<and> (fn s = (Inl e1, s1) \<and> isTransactionConflict (Some e1)
        \<and> fn (record_event (EvSleep (50 * Millisecond)) s1) = (Inl e2, s2)
        \<and> isTransactionConflict (Some e2)
        \<and> fn (record_event (EvSleep (100 * Millisecond)) s2) = (Inl e3, s3)
        \<and> isTransactionConflict (Some e3)
        \<longrightarrow> retryOnConflict fn s
              = (Inl (Error (''transaction failed after 3 retries: '' @ message e3) (Some e3)), s3))"
proof (intro conjI impI)
  assume "ToLower (message e1) = ToLower (message e4)"
  then show "isTransactionConflict (Some e1) = isTransactionConflict (Some e4)"
    by (simp add: isTransactionConflict_def)
next
  assume "fn s = (Inr r, s1)"
  then show "retryOnConflict fn s = (Inr r, s1)"
    by (simp add: retryOnConflict_def retry_loop_ok)
next
  assume "fn s = (Inl e1, s1) \<and> \<not> isTransactionConflict (Some e1)"
  then show "retryOnConflict fn s = (Inl e1, s1)"
    by (simp add: retryOnConflict_def retry_loop_terminal)
next
  assume "fn s = (Inl e1, s1) \<and> isTransactionConflict (Some e1)
        \<and> fn (record_event (EvSleep (50 * Millisecond)) s1) = (Inl e2, s2)
        \<and> \<not> isTransactionConflict (Some e2)"
  then show "retryOnConflict fn s = (Inl e2, s2)"
    by (simp add: retryOnConflict_def retry_loop_conflict_0 retry_loop_terminal)
next
  assume "fn s = (Inl e1, s1) \<and> isTransactionConflict (Some e1)
        \<and> fn (record_event (EvSleep (50 * Millisecond)) s1) = (Inl e2, s2)
        \<and> isTransactionConflict (Some e2)
        \<and> fn (record_event (EvSleep (100 * Millisecond)) s2) = (Inl e3, s3)
        \<and> \<not> isTransactionConflict (Some e3)"
  then show "retryOnConflict fn s = (Inl e3, s3)"
    by (simp add: retryOnConflict_def retry_loop_conflict_0 retry_loop_conflict_1
        retry_loop_terminal)
next
  assume "fn s = (Inl e1, s1) \<and> isTransactionConflict (Some e1)
        \<and> fn (record_event (EvSleep (50 * Millisecond)) s1) = (Inl e2, s2)
        \<and> isTransactionConflict (Some e2)
        \<and> fn (record_event (EvSleep (100 * Millisecond)) s2) = (Inr r, s3)"
  then show "retryOnConflict fn s = (Inr r, s3)"
    by (simp add: retryOnConflict_def retry_loop_conflict_0 retry_loop_conflict_1 retry_loop_ok)
  assume "slept (trace s1) = slept (trace s)
                 \<and> slept (trace s2) = slept (trace (record_event (EvSleep (50 * Millisecond)) s1))
                 \<and> slept (trace s3) = slept (trace (record_event (EvSleep (100 * Millisecond)) s2))"
  then show "slept (trace s3) = slept (trace s) + 150 * Millisecond"
    by (simp add: slept_sleep)
next
  assume "fn s = (Inl e1, s1) \<and> isTransactionConflict (Some e1)
        \<and> fn (record_event (EvSleep (50 * Millisecond)) s1) = (Inl e2, s2)
        \<and> isTransactionConflict (Some e2)
        \<and> fn (record_event (EvSleep (100 * Millisecond)) s2) = (Inl e3, s3)
        \<and> isTransactionConflict (Some e3)"
  then show "retryOnConflict fn s
              = (Inl (Error (''transaction failed after 3 retries: '' @ message e3) (Some e3)), s3)"
    by (simp add: retryOnConflict_def retry_loop_conflict_0 retry_loop_conflict_1
        retry_loop_conflict_2 retry_loop_done wrapf_def)
qed

text \<open>
  The theorem at work: on a message in upper case and on one spelled with U+0130, which
  Go lowers to \<open>i\<close> (the delete that meets it is retried after 50ms); on a delete whose
  first two attempts meet a conflict at \<open>Exec\<close> and whose third attempt commits one row; on
  one whose second attempt fails for another reason; and on one whose three attempts all
  meet a conflict.
\<close>

theorem retry_on_conflict_witness:
  "isTransactionConflict (Some (errorf ''TRANSACTION Conflict''))
   \<and> isTransactionConflict (Some (errorf ''Catalog Error: Conflict on table orders''))
   \<and> \<not> isTransactionConflict (Some (errorf ''Binder Error: conflicting types''))
   \<and> \<not> isTransactionConflict None
   \<and> isTransactionConflict (Some (errorf (''Transact'' @ [CHR 0xC4, CHR 0xB0] @ ''on conflict'')))
   \<and> sleeps (trace (snd (DeleteWithFilters ''t''
         [\<lparr>Column = ''id'', Operator = ''eq'', Value = VInt 1\<rparr>]
         (new_manager [] [ROk 0, RFail (errorf (''Transact'' @ [CHR 0xC4, CHR 0xB0] @ ''on conflict'')),
                          ROk 0, ROk 1]))))
     = [50 * Millisecond]
   \<and> fst (retryOnConflict (run_tx ''delete'' (EvExec ''DELETE FROM t WHERE id = $1'' [VInt 1]))
         (new_manager [] [ROk 0, RFail (errorf ''Transaction conflict''),
                          ROk 0, RFail (errorf ''Transaction conflict''), ROk 0, ROk 1]))
     = Inr 1
   \<and> slept (trace (snd (retryOnConflict
         (run_tx ''delete'' (EvExec ''DELETE FROM t WHERE id = $1'' [VInt 1]))
         (new_manager [] [ROk 0, RFail (errorf ''Transaction conflict''),
                          ROk 0, RFail (errorf ''Transaction conflict''), ROk 0, ROk 1]))))
     = 150 * Millisecond
   \<and> fst (retryOnConflict (run_tx ''delete'' (EvExec ''DELETE FROM t WHERE id = $1'' [VInt 1]))
         (new_manager [] [ROk 0, RFail (errorf ''Transaction conflict''),
                          ROk 0, RFail (errorf ''Binder Error''), ROk 0, ROk 1]))
     = Inl (wrapf ''failed to execute delete: '' (errorf ''Binder Error''))
   \<and> fst (retryOnConflict (run_tx ''delete'' (EvExec ''DELETE FROM t WHERE id = $1'' [VInt 1]))
         (new_manager [] [ROk 0, RFail (errorf ''Transaction conflict''),
                          ROk 0, RFail (errorf ''Transaction conflict''),
                          ROk 0, RFail (errorf ''Transaction conflict'')]))
     = Inl (wrapf ''transaction failed after 3 retries: ''
             (wrapf ''failed to execute delete: '' (errorf ''Transaction conflict'')))"
proof -
  let ?fn = "run_tx ''delete'' (EvExec ''DELETE FROM t WHERE id = $1'' [VInt 1])"
  let ?c = "RFail (errorf ''Transaction conflict'')"
  let ?e = "wrapf ''failed to execute delete: '' (errorf ''Transaction conflict'')"
  let ?b = "wrapf ''failed to execute delete: '' (errorf ''Binder Error'')"
  have c: "isTransactionConflict (Some ?e)" and nc: "\<not> isTransactionConflict (Some ?b)"
    by code_simp+
  let ?s = "new_manager [] [ROk 0, ?c, ROk 0, ?c, ROk 0, ROk 1]"
  let ?s1 = "snd (?fn ?s)"
  let ?s2 = "snd (?fn (record_event (EvSleep (50 * Millisecond)) ?s1))"
  let ?s3 = "snd (?fn (record_event (EvSleep (100 * Millisecond)) ?s2))"
  have a1: "?fn ?s = (Inl ?e, ?s1)" by code_simp
  have a2: "?fn (record_event (EvSleep (50 * Millisecond)) ?s1) = (Inl ?e, ?s2)" by code_simp
  have a3: "?fn (record_event (EvSleep (100 * Millisecond)) ?s2) = (Inr 1, ?s3)" by code_simp
  have q: "slept (trace ?s1) = slept (trace ?s)
      \<and> slept (trace ?s2) = slept (trace (record_event (EvSleep (50 * Millisecond)) ?s1))
      \<and> slept (trace ?s3) = slept (trace (record_event (EvSleep (100 * Millisecond)) ?s2))"
    by code_simp
  have z: "slept (trace ?s) = 0"
    by code_simp
  from retry_on_conflict [where fn = ?fn and s = ?s and ?s1.0 = ?s1 and ?s2.0 = ?s2
      and ?s3.0 = ?s3 and ?e1.0 = ?e and ?e4.0 = ?e and ?e2.0 = ?e and r = 1] a1 a2 a3 c q
  have first: "retryOnConflict ?fn ?s = (Inr 1, ?s3)
      \<and> slept (trace ?s3) = slept (trace ?s) + 150 * Millisecond"
    by blast
  let ?t = "new_manager [] [ROk 0, ?c, ROk 0, RFail (errorf ''Binder Error''), ROk 0, ROk 1]"
  let ?t1 = "snd (?fn ?t)"
  let ?t2 = "snd (?fn (record_event (EvSleep (50 * Millisecond)) ?t1))"
  have b1: "?fn ?t = (Inl ?e, ?t1)" by code_simp
  have b2: "?fn (record_event (EvSleep (50 * Millisecond)) ?t1) = (Inl ?b, ?t2)" by code_simp
  from retry_on_conflict [where fn = ?fn and s = ?t and ?s1.0 = ?t1 and ?s2.0 = ?t2
      and ?e1.0 = ?e and ?e4.0 = ?e and ?e2.0 = ?b] b1 b2 c nc
  have second: "retryOnConflict ?fn ?t = (Inl ?b, ?t2)"
    by blast
  let ?u = "new_manager [] [ROk 0, ?c, ROk 0, ?c, ROk 0, ?c]"
  let ?u1 = "snd (?fn ?u)"
  let ?u2 = "snd (?fn (record_event (EvSleep (50 * Millisecond)) ?u1))"
  let ?u3 = "snd (?fn (record_event (EvSleep (100 * Millisecond)) ?u2))"
  have c1: "?fn ?u = (Inl ?e, ?u1)" by code_simp
  have c2: "?fn (record_event (EvSleep (50 * Millisecond)) ?u1) = (Inl ?e, ?u2)" by code_simp
  have c3: "?fn (record_event (EvSleep (100 * Millisecond)) ?u2) = (Inl ?e, ?u3)" by code_simp
  from retry_on_conflict [where fn = ?fn and s = ?u and ?s1.0 = ?u1 and ?s2.0 = ?u2
      and ?s3.0 = ?u3 and ?e1.0 = ?e and ?e4.0 = ?e and ?e2.0 = ?e and ?e3.0 = ?e] c1 c2 c3 c
  have third: "retryOnConflict ?fn ?u
      = (Inl (Error (''transaction failed after 3 retries: '' @ message ?e) (Some ?e)), ?u3)"
    by blast
  have same: "ToLower (message (errorf ''TRANSACTION Conflict''))
      = ToLower (message (errorf ''transaction conflict''))"
    by code_simp
  have lower: "isTransactionConflict (Some (errorf ''transaction conflict''))"
    by code_simp
  from retry_on_conflict [where ?e1.0 = "errorf ''TRANSACTION Conflict''"
      and ?e4.0 = "errorf ''transaction conflict''", THEN conjunct1, THEN mp, OF same] lower
  have upper: "isTransactionConflict (Some (errorf ''TRANSACTION Conflict''))"
    by (rule iffD2)
  have same_i: "ToLower (message (errorf (''Transact'' @ [CHR 0xC4, CHR 0xB0] @ ''on conflict'')))
      = ToLower (message (errorf ''transaction conflict''))"
    by code_simp
  from retry_on_conflict [where ?e1.0 = "errorf (''Transact'' @ [CHR 0xC4, CHR 0xB0] @ ''on conflict'')"
      and ?e4.0 = "errorf ''transaction conflict''", THEN conjunct1, THEN mp, OF same_i] lower
  have dotted: "isTransactionConflict (Some (errorf (''Transact'' @ [CHR 0xC4, CHR 0xB0] @ ''on conflict'')))"
    by (rule iffD2)
  have retried: "sleeps (trace (snd (DeleteWithFilters ''t''
         [\<lparr>Column = ''id'', Operator = ''eq'', Value = VInt 1\<rparr>]
         (new_manager [] [ROk 0, RFail (errorf (''Transact'' @ [CHR 0xC4, CHR 0xB0] @ ''on conflict'')),
                          ROk 0, ROk 1]))))
     = [50 * Millisecond]"
    by code_simp
  have table: "isTransactionConflict (Some (errorf ''Catalog Error: Conflict on table orders''))"
    and other: "\<not> isTransactionConflict (Some (errorf ''Binder Error: conflicting types''))"
    and nil: "\<not> isTransactionConflict None"
    by code_simp+
  from upper table other nil dotted retried first z second third show ?thesis
    by (simp add: wrapf_def)
qed

text \<open>
  The claim as written lists a 200ms sleep between attempts. A delete whose three attempts
  all meet a conflict sleeps 50ms and 100ms and nothing else: the loop ends after the third
  attempt without sleeping.
\<close>

theorem retry_sleeps_counterexample:
  "sleeps (trace (snd (DeleteWithFilters ''t''
       [\<lparr>Column = ''id'', Operator = ''eq'', Value = VInt 1\<rparr>]
       (new_manager [] [ROk 0, RFail (errorf ''Transaction conflict''),
                        ROk 0, RFail (errorf ''Transaction conflict''),
                        ROk 0, RFail (errorf ''Transaction conflict'')]))))
     = [50 * Millisecond, 100 * Millisecond]
   \<and> EvSleep (200 * Millisecond) \<notin> set (trace (snd (DeleteWithFilters ''t''
       [\<lparr>Column = ''id'', Operator = ''eq'', Value = VInt 1\<rparr>]
       (new_manager [] [ROk 0, RFail (errorf ''Transaction conflict''),
                        ROk 0, RFail (errorf ''Transaction conflict''),
                        ROk 0, RFail (errorf ''Transaction conflict'')]))))
   \<and> fst (DeleteWithFilters ''t''
       [\<lparr>Column = ''id'', Operator = ''eq'', Value = VInt 1\<rparr>]
       (new_manager [] [ROk 0, RFail (errorf ''Transaction conflict''),
                        ROk 0, RFail (errorf ''Transaction conflict''),
                        ROk 0, RFail (errorf ''Transaction conflict'')]))
     = Inl (wrapf ''transaction failed after 3 retries: ''
             (wrapf ''failed to execute delete: '' (errorf ''Transaction conflict'')))"
  by code_simp

section \<open>Properties of the mutations\<close>





lemma prepare_and_store_Inr:
  "prepare_and_store k q s = (Inr st, s1) \<Longrightarrow> map_of (preparedStmts s1) k = Some st"
  by (cases "engine_call (EvPrepare q) s")
    (auto simp: prepare_and_store_def Let_def update_conv' split: reply.splits)














text \<open>
  Claim C3. \<open>Insert\<close> with an empty field map, \<open>Update\<close> and \<open>UpdateWithFilters\<close> with an
  empty SET map or an empty WHERE map or filter list, and \<open>Delete\<close> and \<open>DeleteWithFilters\<close>
  with an empty WHERE map or filter list return an error and leave the manager as it was:
  no cache entry changes and no engine call is made, so no transaction is begun. Hence an
  update or delete that reaches the engine at all has a non-empty WHERE map or filter list.
\<close>

theorem empty_input_rejected:
  "Insert table [] s = (Inl (errorf ''no data provided for insert''), s)
   \<and> Update table [] whereMap s = (Inl (errorf ''no data provided for update''), s)
   \<and> Update table (x # setMap) [] s
       = (Inl (errorf ''no where clause provided for update (use DELETE with caution)''), s)
   \<and> UpdateWithFilters table [] filters s = (Inl (errorf ''no data provided for update''), s)
   \<and> UpdateWithFilters table (x # setMap) [] s
       = (Inl (errorf ''no filters provided for update (safety check)''), s)
   \<and> Delete table [] s
       = (Inl (errorf ''no where clause provided for delete (safety check)''), s)
   \<and> DeleteWithFilters table [] s
       = (Inl (errorf ''no filters provided for delete (safety check)''), s)
   \<and> (trace (snd (Update table setMap whereMap s)) \<noteq> trace s \<longrightarrow> setMap \<noteq> [] \<and> whereMap \<noteq> [])
   \<and> (trace (snd (UpdateWithFilters table setMap filters s)) \<noteq> trace s
        \<longrightarrow> setMap \<noteq> [] \<and> filters \<noteq> [])
   \<and> (trace (snd (Delete table whereMap s)) \<noteq> trace s \<longrightarrow> whereMap \<noteq> [])
   \<and> (trace (snd (DeleteWithFilters table filters s)) \<noteq> trace s \<longrightarrow> filters \<noteq> [])"
proof -
  have i: "Insert table [] s = (Inl (errorf ''no data provided for insert''), s)"
    by (simp add: Insert_def)
  have u: "Update table [] whereMap s = (Inl (errorf ''no data provided for update''), s)"
    "Update table (x # setMap) [] s
       = (Inl (errorf ''no where clause provided for update (use DELETE with caution)''), s)"
    "\<And>m. Update table m [] s = (Inl (if m = [] then errorf ''no data provided for update''
        else errorf ''no where clause provided for update (use DELETE with caution)''), s)"
    by (simp_all add: Update_def)
  have uf: "UpdateWithFilters table [] filters s = (Inl (errorf ''no data provided for update''), s)"
    "UpdateWithFilters table (x # setMap) [] s
       = (Inl (errorf ''no filters provided for update (safety check)''), s)"
     "\<And>m. UpdateWithFilters table m [] s = (Inl (if m = [] then errorf ''no data provided for update''
        else errorf ''no filters provided for update (safety check)''), s)"
    by (simp_all add: UpdateWithFilters_def)
  have d: "Delete table [] s
       = (Inl (errorf ''no where clause provided for delete (safety check)''), s)"
    by (simp add: Delete_def)
  have df: "DeleteWithFilters table [] s
       = (Inl (errorf ''no filters provided for delete (safety check)''), s)"
    by (simp add: DeleteWithFilters_def)
  have gu: "trace (snd (Update table setMap whereMap s)) \<noteq> trace s \<longrightarrow> setMap \<noteq> [] \<and> whereMap \<noteq> []"
    using u(1,3) by (cases setMap; cases whereMap) auto
  have guf: "trace (snd (UpdateWithFilters table setMap filters s)) \<noteq> trace s
        \<longrightarrow> setMap \<noteq> [] \<and> filters \<noteq> []"
    using uf(1,3) by (cases setMap; cases filters) auto
  have gd: "trace (snd (Delete table whereMap s)) \<noteq> trace s \<longrightarrow> whereMap \<noteq> []"
    using d by auto
  have gdf: "trace (snd (DeleteWithFilters table filters s)) \<noteq> trace s \<longrightarrow> filters \<noteq> []"
    using df by auto
  from i u(1,2) uf(1,2) d df gu guf gd gdf show ?thesis by blast
qed

theorem empty_input_rejected_witness:
  "trace (snd (Update ''t'' [(''a'', VInt 2)] [(''id'', VInt 1)] (new_manager [] []))) \<noteq> []
   \<and> trace (snd (UpdateWithFilters ''t'' [(''a'', VInt 2)]
        [\<lparr>Column = ''id'', Operator = ''eq'', Value = VInt 1\<rparr>] (new_manager [] []))) \<noteq> []
   \<and> trace (snd (Delete ''t'' [(''id'', VInt 1)] (new_manager [] []))) \<noteq> []
   \<and> trace (snd (DeleteWithFilters ''t''
        [\<lparr>Column = ''id'', Operator = ''eq'', Value = VInt 1\<rparr>] (new_manager [] []))) \<noteq> []
   \<and> [(''a'', VInt 2)] \<noteq> ([] :: gomap) \<and> [(''id'', VInt 1)] \<noteq> ([] :: gomap)
   \<and> [\<lparr>Column = ''id'', Operator = ''eq'', Value = VInt 1\<rparr>] \<noteq> []
   \<and> Delete ''t'' [] (new_manager [] [])
       = (Inl (errorf ''no where clause provided for delete (safety check)''), new_manager [] [])"
proof -
  let ?m = "new_manager [] []"
  let ?f = "[\<lparr>Column = ''id'', Operator = ''eq'', Value = VInt 1\<rparr>]"
  have t: "trace ?m = []" by (simp add: new_manager_def)
  have a: "trace (snd (Update ''t'' [(''a'', VInt 2)] [(''id'', VInt 1)] ?m)) \<noteq> trace ?m"
    "trace (snd (UpdateWithFilters ''t'' [(''a'', VInt 2)] ?f ?m)) \<noteq> trace ?m"
    "trace (snd (Delete ''t'' [(''id'', VInt 1)] ?m)) \<noteq> trace ?m"
    "trace (snd (DeleteWithFilters ''t'' ?f ?m)) \<noteq> trace ?m"
    by code_simp+
  from empty_input_rejected [where table = "''t''" and setMap = "[(''a'', VInt 2)]"
      and whereMap = "[(''id'', VInt 1)]" and filters = ?f and s = ?m] a
  show ?thesis unfolding t by blast
qed



section \<open>Properties of the column order\<close>

lemma length_sort_inner: "length (sort_inner n s i j) = length s"
proof (induction n s i j rule: sort_inner.induct)
  case (1 n s i j)
  show ?case
  proof (cases "j < n")
    case True
    with 1 show ?thesis by (subst sort_inner.simps) simp
  next
    case False
    then show ?thesis by (subst sort_inner.simps) simp
  qed
qed

lemma mset_sort_inner:
  "n = length s \<Longrightarrow> i < j \<Longrightarrow> mset (sort_inner n s i j) = mset s"
proof (induction n s i j rule: sort_inner.induct)
  case (1 n s i j)
  show ?case
  proof (cases "j < n")
    case True
    let ?s = "if s ! i > s ! j then s[i := s ! j, j := s ! i] else s"
    have "mset ?s = mset s"
      using True 1(2,3) by (simp add: mset_swap)
    moreover have len: "n = length ?s" using 1(2) by simp
    moreover have "i < j + 1" using 1(3) by simp
    with 1(1) [OF True len] have "mset (sort_inner n ?s i (j + 1)) = mset ?s" .
    ultimately show ?thesis
      using True by (subst sort_inner.simps) simp
  next
    case False
    then show ?thesis by (subst sort_inner.simps) simp
  qed
qed

lemma sort_inner_inv:
  assumes "n = length s" "i < j"
    and "\<forall>a b. a < i \<and> a < b \<and> b < n \<longrightarrow> s ! a \<le> s ! b"
    and "\<forall>k. i < k \<and> k < j \<longrightarrow> s ! i \<le> s ! k"
  shows "(\<forall>a b. a < i \<and> a < b \<and> b < n \<longrightarrow> sort_inner n s i j ! a \<le> sort_inner n s i j ! b)
       \<and> (\<forall>k. i < k \<and> k < n \<longrightarrow> sort_inner n s i j ! i \<le> sort_inner n s i j ! k)"
  using assms
proof (induction n s i j rule: sort_inner.induct)
  case (1 n s i j)
  show ?case
  proof (cases "j < n")
    case False
    with 1(2-) show ?thesis
      by (subst (1 2 3 4) sort_inner.simps) auto
  next
    case True
    let ?s = "if s ! i > s ! j then s[i := s ! j, j := s ! i] else s"
    have len: "n = length ?s" using 1(2) by simp
    have P: "\<forall>a b. a < i \<and> a < b \<and> b < n \<longrightarrow> ?s ! a \<le> ?s ! b"
    proof (intro allI impI)
      fix a b assume ab: "a < i \<and> a < b \<and> b < n"
      show "?s ! a \<le> ?s ! b"
      proof (cases "s ! i > s ! j")
        case False
        with ab 1(4) show ?thesis by simp
      next
        case gt: True
        have a: "?s ! a = s ! a" using gt ab 1(2,3) True by simp
        have "?s ! b = s ! b \<or> ?s ! b = s ! i \<or> ?s ! b = s ! j"
          using gt ab 1(2,3) True by (simp add: nth_list_update)
        moreover have "s ! a \<le> s ! b" "s ! a \<le> s ! i" "s ! a \<le> s ! j"
          using ab 1(2,3,4) True by auto
        ultimately show ?thesis using a by auto
      qed
    qed
    have Q: "\<forall>k. i < k \<and> k < j + 1 \<longrightarrow> ?s ! i \<le> ?s ! k"
    proof (intro allI impI)
      fix k assume k: "i < k \<and> k < j + 1"
      show "?s ! i \<le> ?s ! k"
      proof (cases "s ! i > s ! j")
        case False
        then have "s ! i \<le> s ! j" by simp
        with k 1(5) False show ?thesis
          by (cases "k = j") auto
      next
        case gt: True
        have i: "?s ! i = s ! j" using gt 1(2,3) True by simp
        show ?thesis
        proof (cases "k = j")
          case True
          with gt i \<open>j < n\<close> 1(2,3) show ?thesis by simp
        next
          case False
          with k have kj: "k < j" by simp
          then have "?s ! k = s ! k" using gt k by simp
          moreover have "s ! i \<le> s ! k" using 1(5) k kj by simp
          ultimately show ?thesis using i gt by simp
        qed
      qed
    qed
    have "i < j + 1" using 1(3) by simp
    from 1(1) [OF True len this P Q] True show ?thesis
      by (subst (1 2 3 4) sort_inner.simps) simp
  qed
qed

lemma length_sort_outer: "length (sort_outer n s i) = length s"
proof (induction n s i rule: sort_outer.induct)
  case (1 n s i)
  show ?case
  proof (cases "i < n")
    case True
    with 1 show ?thesis by (subst sort_outer.simps) (simp add: length_sort_inner)
  next
    case False
    then show ?thesis by (subst sort_outer.simps) simp
  qed
qed

lemma mset_sort_outer: "n = length s \<Longrightarrow> mset (sort_outer n s i) = mset s"
proof (induction n s i rule: sort_outer.induct)
  case (1 n s i)
  show ?case
  proof (cases "i < n")
    case True
    with 1 show ?thesis
      by (subst sort_outer.simps) (simp add: length_sort_inner mset_sort_inner)
  next
    case False
    then show ?thesis by (subst sort_outer.simps) simp
  qed
qed

lemma sort_outer_inv:
  assumes "n = length s"
    and "\<forall>a b. a < i \<and> a < b \<and> b < n \<longrightarrow> s ! a \<le> s ! b"
  shows "\<forall>a b. a < b \<and> b < n \<longrightarrow> sort_outer n s i ! a \<le> sort_outer n s i ! b"
  using assms
proof (induction n s i rule: sort_outer.induct)
  case (1 n s i)
  show ?case
  proof (cases "i < n")
    case False
    with 1(2-) show ?thesis
      by (subst (1 2) sort_outer.simps) auto
  next
    case True
    let ?r = "sort_inner n s i (i + 1)"
    have len: "n = length ?r" using 1(2) by (simp add: length_sort_inner)
    have inv: "(\<forall>a b. a < i \<and> a < b \<and> b < n \<longrightarrow> ?r ! a \<le> ?r ! b)
       \<and> (\<forall>k. i < k \<and> k < n \<longrightarrow> ?r ! i \<le> ?r ! k)"
      by (rule sort_inner_inv [OF 1(2) _ 1(3)]) auto
    have "\<forall>a b. a < i + 1 \<and> a < b \<and> b < n \<longrightarrow> ?r ! a \<le> ?r ! b"
    proof (intro allI impI)
      fix a b assume ab: "a < i + 1 \<and> a < b \<and> b < n"
      show "?r ! a \<le> ?r ! b"
      proof (cases "a = i")
        case True
        with inv ab show ?thesis by simp
      next
        case False
        with ab have "a < i" by simp
        with inv ab show ?thesis by simp
      qed
    qed
    from 1(1) [OF True len this] True show ?thesis
      by (subst (1 2) sort_outer.simps) simp
  qed
qed

lemma sorted_sortStrings: "sorted (sortStrings s)"
proof -
  have "\<forall>a b. a < b \<and> b < length s \<longrightarrow> sortStrings s ! a \<le> sortStrings s ! b"
    unfolding sortStrings_def by (rule sort_outer_inv) simp_all
  then show ?thesis
    by (simp add: sorted_iff_nth_mono_less sortStrings_def length_sort_outer)
qed

lemma mset_sortStrings: "mset (sortStrings s) = mset s"
  by (simp add: sortStrings_def mset_sort_outer)

lemma sortStrings_canonical:
  assumes "distinct xs" "distinct ys" "set xs = set ys"
  shows "sortStrings xs = sortStrings ys"
proof -
  have "mset xs = mset ys"
    using assms by (simp add: set_eq_iff_mset_eq_distinct)
  then have "mset (sortStrings xs) = mset (sortStrings ys)"
    by (simp add: mset_sortStrings)
  then show ?thesis
    using sorted_sortStrings by (metis properties_for_sort)
qed

section \<open>Properties of the statement cache\<close>

lemma getOrPrepareUpdate_Inr:
  assumes "getOrPrepareUpdate table setMap whereMap s = (Inr (st, sc, wc), s1)"
  shows "sc = sortStrings (keys_of setMap) \<and> wc = sortStrings (keys_of whereMap)
       \<and> map_of (preparedStmts s1) (update_key table sc wc) = Some st"
proof (cases "map_of (preparedStmts s)
    (update_key table (sortStrings (keys_of setMap)) (sortStrings (keys_of whereMap)))")
  case (Some cached)
  with assms show ?thesis
    by (simp add: getOrPrepareUpdate_def Let_def)
next
  case None
  let ?k = "update_key table (sortStrings (keys_of setMap)) (sortStrings (keys_of whereMap))"
  let ?q = "''UPDATE '' @ table @ '' SET '' @ Join (eq_clauses 0 (sortStrings (keys_of setMap))) '', ''
             @ '' WHERE '' @ Join (eq_clauses (length (sortStrings (keys_of setMap)))
                 (sortStrings (keys_of whereMap))) '' AND ''"
  obtain r s2 where p: "prepare_and_store ?k ?q s = (r, s2)"
    by (cases "prepare_and_store ?k ?q s")
  with assms None have "r = Inr st \<and> s2 = s1 \<and> sc = sortStrings (keys_of setMap)
      \<and> wc = sortStrings (keys_of whereMap)"
    by (cases r) (simp_all add: getOrPrepareUpdate_def Let_def)
  with p show ?thesis
    by (simp add: prepare_and_store_Inr)
qed

lemma getOrPrepareUpdate_hit:
  "map_of (preparedStmts s)
     (update_key table (sortStrings (keys_of setMap)) (sortStrings (keys_of whereMap))) = Some st
   \<Longrightarrow> getOrPrepareUpdate table setMap whereMap s
       = (Inr (st, sortStrings (keys_of setMap), sortStrings (keys_of whereMap)), s)"
  by (simp add: getOrPrepareUpdate_def Let_def)

lemma getOrPrepareDelete_Inr:
  assumes "getOrPrepareDelete table whereMap s = (Inr (st, wc), s1)"
  shows "wc = sortStrings (keys_of whereMap)
       \<and> map_of (preparedStmts s1) (delete_key table wc) = Some st"
proof (cases "map_of (preparedStmts s) (delete_key table (sortStrings (keys_of whereMap)))")
  case (Some cached)
  with assms show ?thesis
    by (simp add: getOrPrepareDelete_def Let_def)
next
  case None
  let ?k = "delete_key table (sortStrings (keys_of whereMap))"
  let ?q = "''DELETE FROM '' @ table @ '' WHERE ''
             @ Join (eq_clauses 0 (sortStrings (keys_of whereMap))) '' AND ''"
  obtain r s2 where p: "prepare_and_store ?k ?q s = (r, s2)"
    by (cases "prepare_and_store ?k ?q s")
  with assms None have "r = Inr st \<and> s2 = s1 \<and> wc = sortStrings (keys_of whereMap)"
    by (cases r) (simp_all add: getOrPrepareDelete_def Let_def)
  with p show ?thesis
    by (simp add: prepare_and_store_Inr)
qed

lemma getOrPrepareDelete_hit:
  "map_of (preparedStmts s) (delete_key table (sortStrings (keys_of whereMap))) = Some st
   \<Longrightarrow> getOrPrepareDelete table whereMap s = (Inr (st, sortStrings (keys_of whereMap)), s)"
  by (simp add: getOrPrepareDelete_def Let_def)

lemma prepare_and_store_fresh:
  assumes "prepare_and_store k q s = (Inr st, s1)"
  shows "st = Stmt (next_stmt s) q \<and> trace s1 = trace s @ [EvPrepare q]
       \<and> preparedStmts s1 = AList.update k st (preparedStmts s)"
proof -
  obtain r s2 where c: "engine_call (EvPrepare q) s = (r, s2)"
    by (cases "engine_call (EvPrepare q) s")
  then have e: "trace s2 = trace s @ [EvPrepare q]" "preparedStmts s2 = preparedStmts s"
    "next_stmt s2 = next_stmt s"
    by (auto simp: engine_call_def record_event_def split: list.splits)
  from assms c show ?thesis
    by (cases r) (auto simp: prepare_and_store_def Let_def e)
qed

lemma getOrPrepareUpdate_cases:
  assumes "getOrPrepareUpdate table setMap whereMap s = (Inr (st, sc, wc), s1)"
  shows "map_of (preparedStmts s) (update_key table sc wc) = Some st \<and> s1 = s
     \<or> map_of (preparedStmts s) (update_key table sc wc) = None
       \<and> st = Stmt (next_stmt s)
               (''UPDATE '' @ table @ '' SET '' @ Join (eq_clauses 0 sc) '', ''
                @ '' WHERE '' @ Join (eq_clauses (length sc) wc) '' AND '')
       \<and> trace s1 = trace s @ [EvPrepare
               (''UPDATE '' @ table @ '' SET '' @ Join (eq_clauses 0 sc) '', ''
                @ '' WHERE '' @ Join (eq_clauses (length sc) wc) '' AND '')]
       \<and> preparedStmts s1 = AList.update (update_key table sc wc) st (preparedStmts s)"
proof -
  let ?sc = "sortStrings (keys_of setMap)" and ?wc = "sortStrings (keys_of whereMap)"
  let ?k = "update_key table ?sc ?wc"
  let ?q = "''UPDATE '' @ table @ '' SET '' @ Join (eq_clauses 0 ?sc) '', ''
             @ '' WHERE '' @ Join (eq_clauses (length ?sc) ?wc) '' AND ''"
  from getOrPrepareUpdate_Inr [OF assms] have sc: "sc = ?sc" and wc: "wc = ?wc" by simp_all
  show ?thesis
  proof (cases "map_of (preparedStmts s) ?k")
    case (Some cached)
    with assms show ?thesis
      by (simp add: getOrPrepareUpdate_def Let_def sc wc)
  next
    case None
    obtain r s2 where p: "prepare_and_store ?k ?q s = (r, s2)"
      by (cases "prepare_and_store ?k ?q s")
    with assms None have "r = Inr st" "s2 = s1"
      by (cases r; simp add: getOrPrepareUpdate_def Let_def)+
    with p have "prepare_and_store ?k ?q s = (Inr st, s1)" by simp
    from prepare_and_store_fresh [OF this] None show ?thesis
      unfolding sc wc by blast
  qed
qed

lemma getOrPrepareDelete_cases:
  assumes "getOrPrepareDelete table whereMap s = (Inr (st, wc), s1)"
  shows "map_of (preparedStmts s) (delete_key table wc) = Some st \<and> s1 = s
     \<or> map_of (preparedStmts s) (delete_key table wc) = None
       \<and> st = Stmt (next_stmt s)
               (''DELETE FROM '' @ table @ '' WHERE '' @ Join (eq_clauses 0 wc) '' AND '')
       \<and> trace s1 = trace s @ [EvPrepare
               (''DELETE FROM '' @ table @ '' WHERE '' @ Join (eq_clauses 0 wc) '' AND '')]
       \<and> preparedStmts s1 = AList.update (delete_key table wc) st (preparedStmts s)"
proof -
  let ?wc = "sortStrings (keys_of whereMap)"
  let ?k = "delete_key table ?wc"
  let ?q = "''DELETE FROM '' @ table @ '' WHERE '' @ Join (eq_clauses 0 ?wc) '' AND ''"
  from getOrPrepareDelete_Inr [OF assms] have wc: "wc = ?wc" by simp
  show ?thesis
  proof (cases "map_of (preparedStmts s) ?k")
    case (Some cached)
    with assms show ?thesis
      by (simp add: getOrPrepareDelete_def Let_def wc)
  next
    case None
    obtain r s2 where p: "prepare_and_store ?k ?q s = (r, s2)"
      by (cases "prepare_and_store ?k ?q s")
    with assms None have "r = Inr st" "s2 = s1"
      by (cases r; simp add: getOrPrepareDelete_def Let_def)+
    with p have "prepare_and_store ?k ?q s = (Inr st, s1)" by simp
    from prepare_and_store_fresh [OF this] None show ?thesis
      unfolding wc by blast
  qed
qed

text \<open>
  Claim C8. \<open>sortStrings\<close> returns its input sorted. The cache key of an update is the
  table name, \<open>:update:set=\<close>, the sorted SET columns joined by commas, \<open>:where=\<close> and the
  sorted WHERE columns joined by commas; that of a delete is the table name,
  \<open>:delete:where=\<close> and the sorted WHERE columns joined by commas. So two field maps with
  the same column sets, whatever the order in which their columns are ranged over, give
  the same key. A successful request leaves the statement it returns in the cache under
  that key: either the statement was there and nothing changed, or it was prepared in this
  call, with the SQL text for the sorted columns, and stored. A request that finds a
  statement under the key returns that instance and changes nothing; hence a request made
  after a successful one, in any column order, returns the same instance.
\<close>

theorem statement_key_canonical:
  assumes "distinct (keys_of set1)" "distinct (keys_of set2)"
    and "set (keys_of set1) = set (keys_of set2)"
    and "distinct (keys_of where1)" "distinct (keys_of where2)"
    and "set (keys_of where1) = set (keys_of where2)"
  shows "sorted (sortStrings (keys_of set1)) \<and> sorted (sortStrings (keys_of where1))
    \<and> mset (sortStrings (keys_of set1)) = mset (keys_of set1)
    \<and> mset (sortStrings (keys_of where1)) = mset (keys_of where1)
    \<and> update_key table (sortStrings (keys_of set1)) (sortStrings (keys_of where1))
        = table @ '':update:set='' @ Join (sortStrings (keys_of set2)) '',''
          @ '':where='' @ Join (sortStrings (keys_of where2)) '',''
    \<and> delete_key table (sortStrings (keys_of where1))
        = table @ '':delete:where='' @ Join (sortStrings (keys_of where2)) '',''
    \<and> (getOrPrepareUpdate table set1 where1 s = (Inr (st, sc, wc), s1)
         \<longrightarrow> sc = sortStrings (keys_of set1) \<and> wc = sortStrings (keys_of where1)
           \<and> map_of (preparedStmts s1) (update_key table sc wc) = Some st
           \<and> (map_of (preparedStmts s) (update_key table sc wc) = Some st \<and> s1 = s
              \<or> map_of (preparedStmts s) (update_key table sc wc) = None
                \<and> st = Stmt (next_stmt s)
                    (''UPDATE '' @ table @ '' SET '' @ Join (eq_clauses 0 sc) '', ''
                     @ '' WHERE '' @ Join (eq_clauses (length sc) wc) '' AND '')
                \<and> trace s1 = trace s @ [EvPrepare
                    (''UPDATE '' @ table @ '' SET '' @ Join (eq_clauses 0 sc) '', ''
                     @ '' WHERE '' @ Join (eq_clauses (length sc) wc) '' AND '')]
                \<and> preparedStmts s1 = AList.update (update_key table sc wc) st (preparedStmts s))
           \<and> getOrPrepareUpdate table set2 where2 s1 = (Inr (st, sc, wc), s1))
    \<and> (map_of (preparedStmts s)
           (update_key table (sortStrings (keys_of set1)) (sortStrings (keys_of where1))) = Some cached
         \<longrightarrow> getOrPrepareUpdate table set2 where2 s
             = (Inr (cached, sortStrings (keys_of set2), sortStrings (keys_of where2)), s))
    \<and> (getOrPrepareDelete table where1 s = (Inr (st, wc), s1)
         \<longrightarrow> wc = sortStrings (keys_of where1)
           \<and> map_of (preparedStmts s1) (delete_key table wc) = Some st
           \<and> (map_of (preparedStmts s) (delete_key table wc) = Some st \<and> s1 = s
              \<or> map_of (preparedStmts s) (delete_key table wc) = None
                \<and> st = Stmt (next_stmt s)
                    (''DELETE FROM '' @ table @ '' WHERE '' @ Join (eq_clauses 0 wc) '' AND '')
                \<and> trace s1 = trace s @ [EvPrepare
                    (''DELETE FROM '' @ table @ '' WHERE '' @ Join (eq_clauses 0 wc) '' AND '')]
                \<and> preparedStmts s1 = AList.update (delete_key table wc) st (preparedStmts s))
           \<and> getOrPrepareDelete table where2 s1 = (Inr (st, wc), s1))
    \<and> (map_of (preparedStmts s) (delete_key table (sortStrings (keys_of where1))) = Some cached
         \<longrightarrow> getOrPrepareDelete table where2 s
             = (Inr (cached, sortStrings (keys_of where2)), s))"
proof -
  have cs: "sortStrings (keys_of set1) = sortStrings (keys_of set2)"
    using assms(1-3) by (rule sortStrings_canonical)
  have cw: "sortStrings (keys_of where1) = sortStrings (keys_of where2)"
    using assms(4-6) by (rule sortStrings_canonical)
  have keys: "update_key table (sortStrings (keys_of set1)) (sortStrings (keys_of where1))
        = table @ '':update:set='' @ Join (sortStrings (keys_of set2)) '',''
          @ '':where='' @ Join (sortStrings (keys_of where2)) '',''"
    "delete_key table (sortStrings (keys_of where1))
        = table @ '':delete:where='' @ Join (sortStrings (keys_of where2)) '',''"
    by (simp_all only: cs cw update_key_def delete_key_def)
  have upd: "sc = sortStrings (keys_of set1) \<and> wc = sortStrings (keys_of where1)
           \<and> map_of (preparedStmts s1) (update_key table sc wc) = Some st
           \<and> (map_of (preparedStmts s) (update_key table sc wc) = Some st \<and> s1 = s
              \<or> map_of (preparedStmts s) (update_key table sc wc) = None
                \<and> st = Stmt (next_stmt s)
                    (''UPDATE '' @ table @ '' SET '' @ Join (eq_clauses 0 sc) '', ''
                     @ '' WHERE '' @ Join (eq_clauses (length sc) wc) '' AND '')
                \<and> trace s1 = trace s @ [EvPrepare
                    (''UPDATE '' @ table @ '' SET '' @ Join (eq_clauses 0 sc) '', ''
                     @ '' WHERE '' @ Join (eq_clauses (length sc) wc) '' AND '')]
                \<and> preparedStmts s1 = AList.update (update_key table sc wc) st (preparedStmts s))
           \<and> getOrPrepareUpdate table set2 where2 s1 = (Inr (st, sc, wc), s1)"
    if h: "getOrPrepareUpdate table set1 where1 s = (Inr (st, sc, wc), s1)"
  proof -
    from getOrPrepareUpdate_Inr [OF h]
    have sc: "sc = sortStrings (keys_of set1)" and wc: "wc = sortStrings (keys_of where1)"
      and m: "map_of (preparedStmts s1) (update_key table sc wc) = Some st"
      by auto
    from m have "map_of (preparedStmts s1)
        (update_key table (sortStrings (keys_of set2)) (sortStrings (keys_of where2))) = Some st"
      unfolding sc wc cs cw .
    from getOrPrepareUpdate_hit [OF this]
    have again: "getOrPrepareUpdate table set2 where2 s1 = (Inr (st, sc, wc), s1)"
      unfolding sc wc cs cw .
    from sc wc m getOrPrepareUpdate_cases [OF h] again show ?thesis
      by (intro conjI) assumption+
  qed
  have upd_hit: "getOrPrepareUpdate table set2 where2 s
             = (Inr (cached, sortStrings (keys_of set2), sortStrings (keys_of where2)), s)"
    if h: "map_of (preparedStmts s)
           (update_key table (sortStrings (keys_of set1)) (sortStrings (keys_of where1))) = Some cached"
    using h unfolding cs cw by (rule getOrPrepareUpdate_hit)
  have del: "wc = sortStrings (keys_of where1)
           \<and> map_of (preparedStmts s1) (delete_key table wc) = Some st
           \<and> (map_of (preparedStmts s) (delete_key table wc) = Some st \<and> s1 = s
              \<or> map_of (preparedStmts s) (delete_key table wc) = None
                \<and> st = Stmt (next_stmt s)
                    (''DELETE FROM '' @ table @ '' WHERE '' @ Join (eq_clauses 0 wc) '' AND '')
                \<and> trace s1 = trace s @ [EvPrepare
                    (''DELETE FROM '' @ table @ '' WHERE '' @ Join (eq_clauses 0 wc) '' AND '')]
                \<and> preparedStmts s1 = AList.update (delete_key table wc) st (preparedStmts s))
           \<and> getOrPrepareDelete table where2 s1 = (Inr (st, wc), s1)"
    if h: "getOrPrepareDelete table where1 s = (Inr (st, wc), s1)"
  proof -
    from getOrPrepareDelete_Inr [OF h]
    have wc: "wc = sortStrings (keys_of where1)"
      and m: "map_of (preparedStmts s1) (delete_key table wc) = Some st"
      by auto
    from m have "map_of (preparedStmts s1)
        (delete_key table (sortStrings (keys_of where2))) = Some st"
      unfolding wc cw .
    from getOrPrepareDelete_hit [OF this]
    have again: "getOrPrepareDelete table where2 s1 = (Inr (st, wc), s1)"
      unfolding wc cw .
    from wc m getOrPrepareDelete_cases [OF h] again show ?thesis
      by (intro conjI) assumption+
  qed
  have del_hit: "getOrPrepareDelete table where2 s
             = (Inr (cached, sortStrings (keys_of where2)), s)"
    if h: "map_of (preparedStmts s) (delete_key table (sortStrings (keys_of where1))) = Some cached"
    using h unfolding cw by (rule getOrPrepareDelete_hit)
  note sorted_sortStrings [of "keys_of set1"] sorted_sortStrings [of "keys_of where1"]
    mset_sortStrings [of "keys_of set1"] mset_sortStrings [of "keys_of where1"]
  moreover note keys impI [OF upd] impI [OF upd_hit] impI [OF del] impI [OF del_hit]
  ultimately show ?thesis
    by (intro conjI) assumption+
qed


theorem statement_key_canonical_witness:
  "update_key ''t'' (sortStrings [''b'', ''a'']) (sortStrings [''id'', ''age''])
     = ''t:update:set=a,b:where=age,id''
   \<and> update_key ''t'' (sortStrings [''a'', ''b'']) (sortStrings [''age'', ''id''])
     = ''t:update:set=a,b:where=age,id''
   \<and> delete_key ''t'' (sortStrings [''id'', ''age'']) = ''t:delete:where=age,id''
   \<and> delete_key ''t'' (sortStrings [''age'', ''id'']) = ''t:delete:where=age,id''
   \<and> preparedStmts (snd (getOrPrepareUpdate ''t'' [(''b'', VInt 1), (''a'', VInt 2)]
               [(''id'', VInt 1), (''age'', VInt 30)] (new_manager [] [])))
      = [(''t:update:set=a,b:where=age,id'',
          Stmt 0 ''UPDATE t SET a = $1, b = $2 WHERE age = $3 AND id = $4'')]
   \<and> trace (snd (getOrPrepareUpdate ''t'' [(''b'', VInt 1), (''a'', VInt 2)]
               [(''id'', VInt 1), (''age'', VInt 30)] (new_manager [] [])))
      = [EvPrepare ''UPDATE t SET a = $1, b = $2 WHERE age = $3 AND id = $4'']
   \<and> getOrPrepareUpdate ''t'' [(''a'', VInt 3), (''b'', VInt 4)] [(''age'', VInt 5), (''id'', VInt 6)]
        (snd (getOrPrepareUpdate ''t'' [(''b'', VInt 1), (''a'', VInt 2)]
               [(''id'', VInt 1), (''age'', VInt 30)] (new_manager [] [])))
      = (Inr (Stmt 0 ''UPDATE t SET a = $1, b = $2 WHERE age = $3 AND id = $4'',
              [''a'', ''b''], [''age'', ''id'']),
         snd (getOrPrepareUpdate ''t'' [(''b'', VInt 1), (''a'', VInt 2)]
               [(''id'', VInt 1), (''age'', VInt 30)] (new_manager [] [])))
   \<and> preparedStmts (snd (getOrPrepareDelete ''t'' [(''id'', VInt 1), (''age'', VInt 30)]
               (new_manager [] [])))
      = [(''t:delete:where=age,id'', Stmt 0 ''DELETE FROM t WHERE age = $1 AND id = $2'')]
   \<and> getOrPrepareDelete ''t'' [(''age'', VInt 5), (''id'', VInt 6)]
        (snd (getOrPrepareDelete ''t'' [(''id'', VInt 1), (''age'', VInt 30)] (new_manager [] [])))
      = (Inr (Stmt 0 ''DELETE FROM t WHERE age = $1 AND id = $2'', [''age'', ''id'']),
         snd (getOrPrepareDelete ''t'' [(''id'', VInt 1), (''age'', VInt 30)] (new_manager [] [])))"
proof -
  let ?set1 = "[(''b'', VInt 1), (''a'', VInt 2)]"
  let ?set2 = "[(''a'', VInt 3), (''b'', VInt 4)]"
  let ?w1 = "[(''id'', VInt 1), (''age'', VInt 30)]"
  let ?w2 = "[(''age'', VInt 5), (''id'', VInt 6)]"
  let ?m = "new_manager [] []"
  let ?u1 = "snd (getOrPrepareUpdate ''t'' ?set1 ?w1 ?m)"
  let ?d1 = "snd (getOrPrepareDelete ''t'' ?w1 ?m)"
  let ?su = "Stmt 0 ''UPDATE t SET a = $1, b = $2 WHERE age = $3 AND id = $4''"
  let ?sd = "Stmt 0 ''DELETE FROM t WHERE age = $1 AND id = $2''"
  have h: "distinct (keys_of ?set1)" "distinct (keys_of ?set2)"
    "set (keys_of ?set1) = set (keys_of ?set2)"
    "distinct (keys_of ?w1)" "distinct (keys_of ?w2)"
    "set (keys_of ?w1) = set (keys_of ?w2)"
    by (auto simp: keys_of_def)
  have k: "keys_of ?set1 = [''b'', ''a'']" "keys_of ?set2 = [''a'', ''b'']"
    "keys_of ?w1 = [''id'', ''age'']" "keys_of ?w2 = [''age'', ''id'']"
    by (simp_all add: keys_of_def)
  have srt: "sortStrings [''a'', ''b''] = [''a'', ''b'']" "sortStrings [''age'', ''id''] = [''age'', ''id'']"
    by code_simp+
  have u: "getOrPrepareUpdate ''t'' ?set1 ?w1 ?m = (Inr (?su, [''a'', ''b''], [''age'', ''id'']), ?u1)"
    by code_simp
  have d: "getOrPrepareDelete ''t'' ?w1 ?m = (Inr (?sd, [''age'', ''id'']), ?d1)"
    by code_simp
  have lit: "''t'' @ '':update:set='' @ Join [''a'', ''b''] '','' @ '':where='' @ Join [''age'', ''id''] '',''
      = ''t:update:set=a,b:where=age,id''"
    "''t'' @ '':delete:where='' @ Join [''age'', ''id''] '','' = ''t:delete:where=age,id''"
    by simp_all
  have same: "update_key ''t'' (sortStrings [''a'', ''b'']) (sortStrings [''age'', ''id''])
      = ''t:update:set=a,b:where=age,id''"
    "delete_key ''t'' (sortStrings [''age'', ''id'']) = ''t:delete:where=age,id''"
    by code_simp+
  have after: "preparedStmts ?u1 = [(''t:update:set=a,b:where=age,id'', ?su)]"
    "trace ?u1 = [EvPrepare ''UPDATE t SET a = $1, b = $2 WHERE age = $3 AND id = $4'']"
    "preparedStmts ?d1 = [(''t:delete:where=age,id'', ?sd)]"
    by code_simp+
  note T = statement_key_canonical [OF h, where table = "''t''" and s = ?m]
  note T1 = T [where st = ?su and sc = "[''a'', ''b'']" and wc = "[''age'', ''id'']" and ?s1.0 = ?u1
      and cached = ?su]
  from T1 have key_u: "update_key ''t'' (sortStrings (keys_of ?set1)) (sortStrings (keys_of ?w1))
        = ''t'' @ '':update:set='' @ Join (sortStrings (keys_of ?set2)) '',''
          @ '':where='' @ Join (sortStrings (keys_of ?w2)) '',''"
    by (elim conjE)
  from T1 have key_d: "delete_key ''t'' (sortStrings (keys_of ?w1))
        = ''t'' @ '':delete:where='' @ Join (sortStrings (keys_of ?w2)) '',''"
    by (elim conjE)
  from T1 have imp_u: "getOrPrepareUpdate ''t'' ?set1 ?w1 ?m = (Inr (?su, [''a'', ''b''], [''age'', ''id'']), ?u1)
         \<longrightarrow> [''a'', ''b''] = sortStrings (keys_of ?set1) \<and> [''age'', ''id''] = sortStrings (keys_of ?w1)
           \<and> map_of (preparedStmts ?u1) (update_key ''t'' [''a'', ''b''] [''age'', ''id'']) = Some ?su
           \<and> (map_of (preparedStmts ?m) (update_key ''t'' [''a'', ''b''] [''age'', ''id'']) = Some ?su \<and> ?u1 = ?m
              \<or> map_of (preparedStmts ?m) (update_key ''t'' [''a'', ''b''] [''age'', ''id'']) = None
                \<and> ?su = Stmt (next_stmt ?m)
                    (''UPDATE '' @ ''t'' @ '' SET '' @ Join (eq_clauses 0 [''a'', ''b'']) '', ''
                     @ '' WHERE '' @ Join (eq_clauses (length [''a'', ''b'']) [''age'', ''id'']) '' AND '')
                \<and> trace ?u1 = trace ?m @ [EvPrepare
                    (''UPDATE '' @ ''t'' @ '' SET '' @ Join (eq_clauses 0 [''a'', ''b'']) '', ''
                     @ '' WHERE '' @ Join (eq_clauses (length [''a'', ''b'']) [''age'', ''id'']) '' AND '')]
                \<and> preparedStmts ?u1
                    = AList.update (update_key ''t'' [''a'', ''b''] [''age'', ''id'']) ?su (preparedStmts ?m))
           \<and> getOrPrepareUpdate ''t'' ?set2 ?w2 ?u1 = (Inr (?su, [''a'', ''b''], [''age'', ''id'']), ?u1)"
    by (elim conjE)
  from imp_u [THEN mp, OF u]
  have again_u: "getOrPrepareUpdate ''t'' ?set2 ?w2 ?u1 = (Inr (?su, [''a'', ''b''], [''age'', ''id'']), ?u1)"
    by (elim conjE)
  from T [where st = ?sd and sc = "[]" and wc = "[''age'', ''id'']" and ?s1.0 = ?d1 and cached = ?sd]
  have imp_d: "getOrPrepareDelete ''t'' ?w1 ?m = (Inr (?sd, [''age'', ''id'']), ?d1)
         \<longrightarrow> [''age'', ''id''] = sortStrings (keys_of ?w1)
           \<and> map_of (preparedStmts ?d1) (delete_key ''t'' [''age'', ''id'']) = Some ?sd
           \<and> (map_of (preparedStmts ?m) (delete_key ''t'' [''age'', ''id'']) = Some ?sd \<and> ?d1 = ?m
              \<or> map_of (preparedStmts ?m) (delete_key ''t'' [''age'', ''id'']) = None
                \<and> ?sd = Stmt (next_stmt ?m)
                    (''DELETE FROM '' @ ''t'' @ '' WHERE '' @ Join (eq_clauses 0 [''age'', ''id'']) '' AND '')
                \<and> trace ?d1 = trace ?m @ [EvPrepare
                    (''DELETE FROM '' @ ''t'' @ '' WHERE '' @ Join (eq_clauses 0 [''age'', ''id'']) '' AND '')]
                \<and> preparedStmts ?d1
                    = AList.update (delete_key ''t'' [''age'', ''id'']) ?sd (preparedStmts ?m))
           \<and> getOrPrepareDelete ''t'' ?w2 ?d1 = (Inr (?sd, [''age'', ''id'']), ?d1)"
    by (elim conjE)
  from imp_d [THEN mp, OF d]
  have stored_d: "map_of (preparedStmts ?d1) (delete_key ''t'' [''age'', ''id'']) = Some ?sd"
    by (elim conjE)
  have srt_w1: "sortStrings [''id'', ''age''] = [''age'', ''id'']"
    by code_simp
  from stored_d
  have hit: "map_of (preparedStmts ?d1) (delete_key ''t'' (sortStrings (keys_of ?w1))) = Some ?sd"
    unfolding k srt_w1 .
  from statement_key_canonical [OF h, where table = "''t''" and s = ?d1 and st = ?sd and sc = "[]"
      and wc = "[''age'', ''id'']" and ?s1.0 = ?d1 and cached = ?sd]
  have imp_hit: "map_of (preparedStmts ?d1) (delete_key ''t'' (sortStrings (keys_of ?w1))) = Some ?sd
         \<longrightarrow> getOrPrepareDelete ''t'' ?w2 ?d1 = (Inr (?sd, sortStrings (keys_of ?w2)), ?d1)"
    by (elim conjE)
  from imp_hit [THEN mp, OF hit]
  have again_d: "getOrPrepareDelete ''t'' ?w2 ?d1 = (Inr (?sd, [''age'', ''id'']), ?d1)"
    unfolding k srt .
  have ku: "update_key ''t'' (sortStrings [''b'', ''a'']) (sortStrings [''id'', ''age''])
     = ''t:update:set=a,b:where=age,id''"
    using key_u unfolding k srt lit .
  have kd: "delete_key ''t'' (sortStrings [''id'', ''age'']) = ''t:delete:where=age,id''"
    using key_d unfolding k srt lit .
  show ?thesis
    using ku same(1) kd same(2) after(1,2) again_u after(3) again_d
    by (intro conjI) assumption+
qed

text \<open>
  What \<open>InvalidateTableSchema\<close> does to the statement cache: it removes the entries whose
  key starts with the table name, and no others.
\<close>

lemma range_stmts_cache:
  "map_of (preparedStmts (range_stmts table xs s)) k
   = (if k \<in> fst ` set xs \<and> length k \<ge> length table \<and> take (length table) k = table
      then None else map_of (preparedStmts s) k)"
proof (induction xs arbitrary: s)
  case Nil
  show ?case by simp
next
  case (Cons x xs)
  obtain stmtKey st where x: "x = (stmtKey, st)" by (cases x)
  show ?case
    unfolding x by (simp add: Cons record_event_def delete_conv') auto
qed

lemma InvalidateTableSchema_cache:
  "map_of (preparedStmts (InvalidateTableSchema table s)) k
   = (if length k \<ge> length table \<and> take (length table) k = table
      then None else map_of (preparedStmts s) k)"
proof -
  have "map_of (preparedStmts s) k = None" if "k \<notin> fst ` set (preparedStmts s)"
    using that by (simp add: map_of_eq_None_iff)
  then show ?thesis
    by (auto simp: InvalidateTableSchema_def Let_def range_stmts_cache)
qed

text \<open>
  Claim C1 fails on the code. The key test of \<open>InvalidateTableSchema\<close> is a bare prefix
  test. With the insert statement of table \<open>t2\<close> cached under \<open>t2:insert\<close>, invalidating
  table \<open>t\<close> closes that statement and removes its entry.
\<close>

theorem invalidate_evicts_other_table:
  "map_of (preparedStmts (snd (getOrPrepareInsert ''t2'' [''a'', ''b''] (new_manager [] []))))
      (insert_key ''t2'') = Some (Stmt 0 ''INSERT INTO t2 (a, b) VALUES ($1, $2)'')
   \<and> map_of (preparedStmts (InvalidateTableSchema ''t''
         (snd (getOrPrepareInsert ''t2'' [''a'', ''b''] (new_manager [] [])))))
      (insert_key ''t2'') = None
   \<and> trace (InvalidateTableSchema ''t''
         (snd (getOrPrepareInsert ''t2'' [''a'', ''b''] (new_manager [] []))))
      = [EvPrepare ''INSERT INTO t2 (a, b) VALUES ($1, $2)'',
         EvClose (Stmt 0 ''INSERT INTO t2 (a, b) VALUES ($1, $2)'')]"
  by code_simp

section \<open>Properties of the authorizer\<close>

lemma first_of_filter:
  "(case filter P xs of [] \<Rightarrow> None | x # _ \<Rightarrow> Some x) = find P xs"
  by (induction xs) simp_all

lemma find_None_iff_all: "find P xs = None \<longleftrightarrow> (\<forall>x \<in> set xs. \<not> P x)"
  by (induction xs) simp_all

lemma find_cong_set: "(\<And>x. x \<in> set xs \<Longrightarrow> P x = Q x) \<Longrightarrow> find P xs = find Q xs"
  by (induction xs) simp_all

lemma permission_query_resolved:
  "permission_query roleName tableName rows = resolved_permission roleName tableName rows"
proof -
  let ?M = "\<lambda>p. PermRoleName p = roleName \<and> (TableName p = tableName \<or> TableName p = ''*'')"
  let ?E = "\<lambda>p. PermRoleName p = roleName \<and> TableName p = tableName"
  let ?W = "\<lambda>p. PermRoleName p = roleName \<and> TableName p = ''*''"
  let ?N = "\<lambda>p. ?M p \<and> TableName p \<noteq> tableName"
  have e: "filter (\<lambda>p. TableName p = tableName) (filter ?M rows) = filter ?E rows"
    by (simp add: conj_commute) (rule filter_cong, auto)
  have n: "filter (\<lambda>p. TableName p \<noteq> tableName) (filter ?M rows) = filter ?N rows"
    by (simp add: conj_commute)
  have q: "permission_query roleName tableName rows
      = (case filter ?E rows @ filter ?N rows of [] \<Rightarrow> None | p # _ \<Rightarrow> Some p)"
    unfolding permission_query_def Let_def e n ..
  show ?thesis
  proof (cases "find ?E rows")
    case (Some p)
    then have "filter ?E rows \<noteq> []"
      using first_of_filter [of ?E rows] by auto
    then obtain y ys where f: "filter ?E rows = y # ys" by (cases "filter ?E rows") auto
    with first_of_filter [of ?E rows] Some have "y = p" by simp
    with q f Some show ?thesis
      by (simp add: resolved_permission_def)
  next
    case None
    then have none: "\<forall>x \<in> set rows. \<not> ?E x"
      by (simp only: find_None_iff_all)
    then have "filter ?E rows = []"
      by (simp add: filter_empty_conv)
    with q have "permission_query roleName tableName rows
        = (case filter ?N rows of [] \<Rightarrow> None | p # _ \<Rightarrow> Some p)" by simp
    also have "\<dots> = find ?N rows" by (rule first_of_filter)
    also have "\<dots> = find ?W rows"
      using none by (intro find_cong_set) auto
    finally show ?thesis
      using None by (simp add: resolved_permission_def)
  qed
qed

lemma operation_flag_checked:
  assumes "operation \<in> {OperationCreate, OperationRead, OperationUpdate, OperationDelete, OperationQuery}"
    and "db_error db = None"
  shows "checkPermissionDB roleName tableName operation db
     = ((case resolved_permission roleName tableName (permissions db) of
           Some p \<Rightarrow> operation_flag operation p | None \<Rightarrow> False), None)"
  using assms
  by (auto simp: checkPermissionDB_def permission_query_resolved operation_flag_def
      OperationCreate_def OperationRead_def OperationUpdate_def OperationDelete_def
      OperationQuery_def split: option.splits)

text \<open>
  Claim C4. On a cache miss, with the store answering, \<open>CheckPermission\<close> for one of the
  five operations returns the flag of that operation in the permission record of the role
  for exactly the table if there is one, else in the record of the role for \<open>*\<close>, and
  \<open>false\<close> if there is neither; it returns no error and stores the boolean under the
  cache key of the three components. Without a record for the table and without a
  wildcard record the result is \<open>false\<close> with no error.
\<close>

theorem check_permission_on_miss:
  assumes "map_of (permissionCache a) (permission_key roleName tableName operation) = None"
    and "db_error (authDB a) = None"
  shows "(operation \<in> {OperationCreate, OperationRead, OperationUpdate, OperationDelete, OperationQuery}
      \<longrightarrow> CheckPermission roleName tableName operation a
          = (((case resolved_permission roleName tableName (permissions (authDB a)) of
                 Some p \<Rightarrow> operation_flag operation p | None \<Rightarrow> False), None),
             a\<lparr>permissionCache :=
                 AList.update (permission_key roleName tableName operation)
                   (case resolved_permission roleName tableName (permissions (authDB a)) of
                      Some p \<Rightarrow> operation_flag operation p | None \<Rightarrow> False)
                   (permissionCache a)\<rparr>)
        \<and> map_of (permissionCache (snd (CheckPermission roleName tableName operation a)))
             (permission_key roleName tableName operation)
          = Some (case resolved_permission roleName tableName (permissions (authDB a)) of
                    Some p \<Rightarrow> operation_flag operation p | None \<Rightarrow> False))
    \<and> ((\<forall>p \<in> set (permissions (authDB a)).
           PermRoleName p = roleName \<longrightarrow> TableName p \<noteq> tableName \<and> TableName p \<noteq> ''*'')
      \<longrightarrow> fst (CheckPermission roleName tableName operation a) = (False, None))"
proof (intro conjI impI)
  let ?allowed = "case resolved_permission roleName tableName (permissions (authDB a)) of
                 Some p \<Rightarrow> operation_flag operation p | None \<Rightarrow> False"
  assume op: "operation \<in> {OperationCreate, OperationRead, OperationUpdate, OperationDelete,
      OperationQuery}"
  have db: "checkPermissionDB roleName tableName operation (authDB a) = (?allowed, None)"
    using op assms(2) by (rule operation_flag_checked)
  show r: "CheckPermission roleName tableName operation a
          = ((?allowed, None),
             a\<lparr>permissionCache :=
                 AList.update (permission_key roleName tableName operation) ?allowed
                   (permissionCache a)\<rparr>)"
    by (simp add: CheckPermission_def Let_def assms(1) db)
  show "map_of (permissionCache (snd (CheckPermission roleName tableName operation a)))
             (permission_key roleName tableName operation) = Some ?allowed"
    by (simp add: r update_conv')
next
  assume none: "\<forall>p \<in> set (permissions (authDB a)).
           PermRoleName p = roleName \<longrightarrow> TableName p \<noteq> tableName \<and> TableName p \<noteq> ''*''"
  have "resolved_permission roleName tableName (permissions (authDB a)) = None"
    using none by (auto simp: resolved_permission_def find_None_iff_all split: option.splits)
  then have "checkPermissionDB roleName tableName operation (authDB a) = (False, None)"
    using assms(2) by (simp add: checkPermissionDB_def permission_query_resolved)
  then show "fst (CheckPermission roleName tableName operation a) = (False, None)"
    by (simp add: CheckPermission_def Let_def assms(1))
qed


theorem check_permission_on_miss_witness:
  "CheckPermission ''analyst'' ''orders'' ''read'' (NewAuthorizer scenario_db)
     = ((True, None), (NewAuthorizer scenario_db)\<lparr>permissionCache := [(''analyst:orders:read'', True)]\<rparr>)
   \<and> fst (CheckPermission ''analyst'' ''orders'' ''delete'' (NewAuthorizer scenario_db)) = (False, None)
   \<and> fst (CheckPermission ''analyst'' ''invoices'' ''read'' (NewAuthorizer scenario_db)) = (False, None)
   \<and> fst (CheckPermission ''reader'' ''users'' ''read'' (NewAuthorizer scenario_db)) = (True, None)
   \<and> fst (CheckPermission ''reader'' ''secrets'' ''read'' (NewAuthorizer scenario_db)) = (False, None)"
proof -
  let ?a = "NewAuthorizer scenario_db"
  have sel: "authDB ?a = scenario_db" "permissionCache ?a = []"
    by (simp_all add: NewAuthorizer_def)
  have miss: "\<And>k. map_of (permissionCache ?a) k = None"
    by (simp add: sel)
  have db: "db_error (authDB ?a) = None"
    by (simp add: NewAuthorizer_def scenario_db_def)
  have ops: "''read'' \<in> {OperationCreate, OperationRead, OperationUpdate, OperationDelete, OperationQuery}"
    "''delete'' \<in> {OperationCreate, OperationRead, OperationUpdate, OperationDelete, OperationQuery}"
    by (simp_all add: OperationRead_def OperationDelete_def)
  have none: "\<forall>p \<in> set (permissions (authDB ?a)).
      PermRoleName p = ''analyst'' \<longrightarrow> TableName p \<noteq> ''invoices'' \<and> TableName p \<noteq> ''*''"
    by (simp add: NewAuthorizer_def scenario_db_def)
  have r: "resolved_permission ''analyst'' ''orders'' (permissions scenario_db)
      = Some \<lparr>ID = 1, PermRoleName = ''analyst'', TableName = ''orders'', CanCreate = False,
         CanRead = True, CanUpdate = False, CanDelete = False, CanQuery = False\<rparr>"
    "resolved_permission ''reader'' ''users'' (permissions scenario_db)
      = Some \<lparr>ID = 2, PermRoleName = ''reader'', TableName = ''*'', CanCreate = False,
         CanRead = True, CanUpdate = False, CanDelete = False, CanQuery = False\<rparr>"
    "resolved_permission ''reader'' ''secrets'' (permissions scenario_db)
      = Some \<lparr>ID = 3, PermRoleName = ''reader'', TableName = ''secrets'', CanCreate = False,
         CanRead = False, CanUpdate = False, CanDelete = False, CanQuery = False\<rparr>"
    by (simp_all add: scenario_db_def resolved_permission_def)
  have k: "permission_key ''analyst'' ''orders'' ''read'' = ''analyst:orders:read''"
    by (simp add: permission_key_def)
  note T = check_permission_on_miss [OF miss db]
  have 1: "CheckPermission ''analyst'' ''orders'' ''read'' ?a
     = ((True, None), ?a\<lparr>permissionCache := [(''analyst:orders:read'', True)]\<rparr>)"
    using T [where roleName = "''analyst''" and tableName = "''orders''" and operation = "''read''",
        THEN conjunct1, THEN mp, OF ops(1), THEN conjunct1]
    by (simp add: sel r operation_flag_def k)
  have 2: "fst (CheckPermission ''analyst'' ''orders'' ''delete'' ?a) = (False, None)"
    using T [where roleName = "''analyst''" and tableName = "''orders''" and operation = "''delete''",
        THEN conjunct1, THEN mp, OF ops(2), THEN conjunct1]
    by (simp add: sel r operation_flag_def)
  have 3: "fst (CheckPermission ''analyst'' ''invoices'' ''read'' ?a) = (False, None)"
    using T [where roleName = "''analyst''" and tableName = "''invoices''" and operation = "''read''",
        THEN conjunct2, THEN mp, OF none] .
  have 4: "fst (CheckPermission ''reader'' ''users'' ''read'' ?a) = (True, None)"
    using T [where roleName = "''reader''" and tableName = "''users''" and operation = "''read''",
        THEN conjunct1, THEN mp, OF ops(1), THEN conjunct1]
    by (simp add: sel r operation_flag_def)
  have 5: "fst (CheckPermission ''reader'' ''secrets'' ''read'' ?a) = (False, None)"
    using T [where roleName = "''reader''" and tableName = "''secrets''" and operation = "''read''",
        THEN conjunct1, THEN mp, OF ops(1), THEN conjunct1]
    by (simp add: sel r operation_flag_def)
  from 1 2 3 4 5 show ?thesis by blast
qed

text \<open>
  Claim C5 fails on the code. \<open>checkPermissionDB\<close> returns \<open>false\<close> with no error as soon
  as the query yields no row, before it looks at the operation: for the role \<open>analyst\<close>,
  which has no record for \<open>invoices\<close> and no wildcard record, the unknown operation \<open>drop\<close>
  gives \<open>false\<close> without an error, the \<open>false\<close> is cached, and the next call returns it
  from the cache. On \<open>orders\<close>, where the role has a record, the same operation is an error.
\<close>

theorem unknown_operation_silent_false:
  "CheckPermission ''analyst'' ''invoices'' ''drop'' (NewAuthorizer scenario_db)
     = ((False, None),
        (NewAuthorizer scenario_db)\<lparr>permissionCache := [(''analyst:invoices:drop'', False)]\<rparr>)
   \<and> fst (CheckPermission ''analyst'' ''invoices'' ''drop''
            (snd (CheckPermission ''analyst'' ''invoices'' ''drop'' (NewAuthorizer scenario_db))))
     = (False, None)
   \<and> fst (CheckPermission ''analyst'' ''orders'' ''drop'' (NewAuthorizer scenario_db))
     = (False, Some (errorf ''unknown operation: drop''))"
  by code_simp

lemma find_append_new:
  "\<forall>x \<in> set xs. \<not> P x \<Longrightarrow> P y \<Longrightarrow> find P (xs @ [y]) = Some y"
  by (induction xs) simp_all

lemma find_revoked:
  "find (\<lambda>r. Key r = k \<and> IsActive r)
     (map (\<lambda>r. if Key r = k then r\<lparr>IsActive := False\<rparr> else r) rows) = None"
  by (induction rows) simp_all

text \<open>
  Claim C6. A cached key whose expiration lies before the current time is removed from
  the cache and the call fails with the expired error; a cached key that has not expired
  is returned. On a cache miss the store is asked for an active row with exactly that key:
  if there is none (also when the only rows with the key are inactive) the call fails with
  the invalid error; if the row has expired it fails with the expired error; otherwise
  the key is cached and returned. A key created with an expiration already in the past
  fails with the expired error on its first authentication. After a successful
  authentication and a successful \<open>RevokeAPIKey\<close> of the same key, the cache no longer has
  that key, every other cache entry is as before, and the next authentication fails with
  the invalid error.
\<close>

theorem authenticate_api_key:
  "(map_of (apiKeyCache a) k = Some c \<and> expired (ExpiresAt c) now
      \<longrightarrow> AuthenticateAPIKey k now a
            = (Inl (errorf ''API key has expired''),
               a\<lparr>apiKeyCache := AList.delete k (apiKeyCache a)\<rparr>)
          \<and> map_of (apiKeyCache (snd (AuthenticateAPIKey k now a))) k = None)
   \<and> (map_of (apiKeyCache a) k = Some c \<and> \<not> expired (ExpiresAt c) now
      \<longrightarrow> AuthenticateAPIKey k now a = (Inr c, a))
   \<and> (map_of (apiKeyCache a) k = None \<and> db_error (authDB a) = None
        \<and> (\<forall>r \<in> set (api_keys (authDB a)). Key r = k \<longrightarrow> \<not> IsActive r)
      \<longrightarrow> AuthenticateAPIKey k now a = (Inl (errorf ''invalid API key''), a))
   \<and> (map_of (apiKeyCache a) k = None \<and> db_error (authDB a) = None
        \<and> find (\<lambda>r. Key r = k \<and> IsActive r) (api_keys (authDB a)) = Some row
        \<and> expired (ExpiresAt row) now
      \<longrightarrow> AuthenticateAPIKey k now a = (Inl (errorf ''API key has expired''), a))
   \<and> (map_of (apiKeyCache a) k = None \<and> db_error (authDB a) = None
        \<and> find (\<lambda>r. Key r = k \<and> IsActive r) (api_keys (authDB a)) = Some row
        \<and> \<not> expired (ExpiresAt row) now
      \<longrightarrow> AuthenticateAPIKey k now a
            = (Inr row, a\<lparr>apiKeyCache := AList.update k row (apiKeyCache a)\<rparr>)
          \<and> map_of (apiKeyCache (snd (AuthenticateAPIKey k now a))) k = Some row)
   \<and> (map_of (apiKeyCache a) k = None \<and> CreateAPIKey k roleName (Some e) t0 a = (None, a1)
        \<and> e < now
      \<longrightarrow> AuthenticateAPIKey k now a1 = (Inl (errorf ''API key has expired''), a1))
   \<and> (AuthenticateAPIKey k now a = (Inr key, a1) \<and> RevokeAPIKey k a1 = (None, a2)
      \<longrightarrow> map_of (apiKeyCache a1) k = Some key
          \<and> map_of (apiKeyCache a2) k = None
          \<and> (\<forall>k2. k2 \<noteq> k \<longrightarrow> map_of (apiKeyCache a2) k2 = map_of (apiKeyCache a1) k2)
          \<and> AuthenticateAPIKey k now2 a2 = (Inl (errorf ''invalid API key''), a2))"
proof (intro conjI impI allI)
  assume h: "map_of (apiKeyCache a) k = Some c \<and> expired (ExpiresAt c) now"
  then show r: "AuthenticateAPIKey k now a
            = (Inl (errorf ''API key has expired''),
               a\<lparr>apiKeyCache := AList.delete k (apiKeyCache a)\<rparr>)"
    by (simp add: AuthenticateAPIKey_def)
  show "map_of (apiKeyCache (snd (AuthenticateAPIKey k now a))) k = None"
    by (simp add: r delete_conv')
next
  assume "map_of (apiKeyCache a) k = Some c \<and> \<not> expired (ExpiresAt c) now"
  then show "AuthenticateAPIKey k now a = (Inr c, a)"
    by (simp add: AuthenticateAPIKey_def)
next
  assume h: "map_of (apiKeyCache a) k = None \<and> db_error (authDB a) = None
        \<and> (\<forall>r \<in> set (api_keys (authDB a)). Key r = k \<longrightarrow> \<not> IsActive r)"
  then have "find (\<lambda>r. Key r = k \<and> IsActive r) (api_keys (authDB a)) = None"
    by (auto simp: find_None_iff_all)
  with h show "AuthenticateAPIKey k now a = (Inl (errorf ''invalid API key''), a)"
    by (simp add: AuthenticateAPIKey_def authenticateAPIKeyDB_def)
next
  assume "map_of (apiKeyCache a) k = None \<and> db_error (authDB a) = None
        \<and> find (\<lambda>r. Key r = k \<and> IsActive r) (api_keys (authDB a)) = Some row
        \<and> expired (ExpiresAt row) now"
  then show "AuthenticateAPIKey k now a = (Inl (errorf ''API key has expired''), a)"
    by (simp add: AuthenticateAPIKey_def authenticateAPIKeyDB_def)
next
  assume h: "map_of (apiKeyCache a) k = None \<and> db_error (authDB a) = None
        \<and> find (\<lambda>r. Key r = k \<and> IsActive r) (api_keys (authDB a)) = Some row
        \<and> \<not> expired (ExpiresAt row) now"
  then show r: "AuthenticateAPIKey k now a
            = (Inr row, a\<lparr>apiKeyCache := AList.update k row (apiKeyCache a)\<rparr>)"
    by (simp add: AuthenticateAPIKey_def authenticateAPIKeyDB_def)
  show "map_of (apiKeyCache (snd (AuthenticateAPIKey k now a))) k = Some row"
    by (simp add: r update_conv')
next
  assume h: "map_of (apiKeyCache a) k = None \<and> CreateAPIKey k roleName (Some e) t0 a = (None, a1)
        \<and> e < now"
  let ?row = "\<lparr>Key = k, RoleName = roleName, CreatedAt = t0, ExpiresAt = Some e, IsActive = True\<rparr>"
  from h have c: "db_error (authDB a) = None" "k \<notin> set (map Key (api_keys (authDB a)))"
    and a1: "a1 = a\<lparr>authDB := (authDB a)\<lparr>api_keys := api_keys (authDB a) @ [?row]\<rparr>\<rparr>"
    by (auto simp: CreateAPIKey_def Let_def split: option.splits if_splits)
  have "find (\<lambda>r. Key r = k \<and> IsActive r) (api_keys (authDB a) @ [?row]) = Some ?row"
    using c(2) by (intro find_append_new) auto
  with h c(1) show "AuthenticateAPIKey k now a1 = (Inl (errorf ''API key has expired''), a1)"
    by (simp add: a1 AuthenticateAPIKey_def authenticateAPIKeyDB_def expired_def)
next
  assume h: "AuthenticateAPIKey k now a = (Inr key, a1) \<and> RevokeAPIKey k a1 = (None, a2)"
  then show cached: "map_of (apiKeyCache a1) k = Some key"
    by (auto simp: AuthenticateAPIKey_def update_conv' split: option.splits if_splits sum.splits)
  from h have db: "db_error (authDB a1) = None"
    and a2: "a2 = InvalidateAPIKey k
        (a1\<lparr>authDB := (authDB a1)\<lparr>api_keys :=
            map (\<lambda>r. if Key r = k then r\<lparr>IsActive := False\<rparr> else r) (api_keys (authDB a1))\<rparr>\<rparr>)"
    by (auto simp: RevokeAPIKey_def Let_def split: option.splits if_splits)
  show gone: "map_of (apiKeyCache a2) k = None"
    by (simp add: a2 InvalidateAPIKey_def delete_conv')
  show "AuthenticateAPIKey k now2 a2 = (Inl (errorf ''invalid API key''), a2)"
    using gone by (simp add: AuthenticateAPIKey_def authenticateAPIKeyDB_def)
      (simp add: a2 InvalidateAPIKey_def db find_revoked)
  fix k2 assume "k2 \<noteq> k"
  then show "map_of (apiKeyCache a2) k2 = map_of (apiKeyCache a1) k2"
    by (simp add: a2 InvalidateAPIKey_def delete_conv')
qed


theorem authenticate_api_key_witness:
  "fst (AuthenticateAPIKey ''K1'' 200 (with_key ''K1'' None))
     = Inr \<lparr>Key = ''K1'', RoleName = ''analyst'', CreatedAt = 100, ExpiresAt = None, IsActive = True\<rparr>
   \<and> fst (RevokeAPIKey ''K1'' (snd (AuthenticateAPIKey ''K1'' 200 (with_key ''K1'' None)))) = None
   \<and> fst (AuthenticateAPIKey ''K1'' 300
        (snd (RevokeAPIKey ''K1'' (snd (AuthenticateAPIKey ''K1'' 200 (with_key ''K1'' None))))))
     = Inl (errorf ''invalid API key'')
   \<and> fst (AuthenticateAPIKey ''K2'' 200 (with_key ''K2'' (Some 50)))
     = Inl (errorf ''API key has expired'')
   \<and> fst (AuthenticateAPIKey ''K3'' 250 (snd (AuthenticateAPIKey ''K3'' 200 (with_key ''K3'' (Some 300)))))
     = Inr \<lparr>Key = ''K3'', RoleName = ''analyst'', CreatedAt = 100, ExpiresAt = Some 300,
            IsActive = True\<rparr>
   \<and> AuthenticateAPIKey ''K3'' 400 (snd (AuthenticateAPIKey ''K3'' 200 (with_key ''K3'' (Some 300))))
     = (Inl (errorf ''API key has expired''), with_key ''K3'' (Some 300))
   \<and> AuthenticateAPIKey ''K4'' 200 (with_key ''K3'' (Some 300))
     = (Inl (errorf ''invalid API key''), with_key ''K3'' (Some 300))"
proof -
  let ?r1 = "\<lparr>Key = ''K1'', RoleName = ''analyst'', CreatedAt = 100, ExpiresAt = None, IsActive = True\<rparr>"
  let ?r2 = "\<lparr>Key = ''K2'', RoleName = ''analyst'', CreatedAt = 100, ExpiresAt = Some 50, IsActive = True\<rparr>"
  let ?r3 = "\<lparr>Key = ''K3'', RoleName = ''analyst'', CreatedAt = 100, ExpiresAt = Some 300, IsActive = True\<rparr>"
  let ?a = "NewAuthorizer scenario_db"
  let ?w1 = "with_key ''K1'' None"
  let ?w2 = "with_key ''K2'' (Some 50)"
  let ?w3 = "with_key ''K3'' (Some 300)"
  let ?x1 = "snd (AuthenticateAPIKey ''K1'' 200 ?w1)"
  let ?y1 = "snd (RevokeAPIKey ''K1'' ?x1)"
  let ?x3 = "snd (AuthenticateAPIKey ''K3'' 200 ?w3)"
  have fresh: "map_of (apiKeyCache ?a) ''K2'' = None"
    "map_of (apiKeyCache ?w3) ''K3'' = None" "map_of (apiKeyCache ?w3) ''K4'' = None"
    by code_simp+
  have up: "db_error (authDB ?w3) = None"
    by code_simp
  have auth1: "AuthenticateAPIKey ''K1'' 200 ?w1 = (Inr ?r1, ?x1)" by code_simp
  have rev1: "RevokeAPIKey ''K1'' ?x1 = (None, ?y1)" by code_simp
  from authenticate_api_key [where k = "''K1''" and now = 200 and a = ?w1 and key = ?r1
      and ?a1.0 = ?x1 and ?a2.0 = ?y1 and ?now2.0 = 300] auth1 rev1
  have one: "AuthenticateAPIKey ''K1'' 300 ?y1 = (Inl (errorf ''invalid API key''), ?y1)"
    by blast
  have create2: "CreateAPIKey ''K2'' ''analyst'' (Some 50) 100 ?a = (None, ?w2)"
    by code_simp
  have past: "(50::int) < 200" by simp
  from authenticate_api_key [where k = "''K2''" and now = 200 and a = ?a and e = 50
      and roleName = "''analyst''" and ?t0.0 = 100 and ?a1.0 = ?w2] fresh(1) create2 past
  have two: "AuthenticateAPIKey ''K2'' 200 ?w2 = (Inl (errorf ''API key has expired''), ?w2)"
    by blast
  have found: "find (\<lambda>r. Key r = ''K3'' \<and> IsActive r) (api_keys (authDB ?w3)) = Some ?r3"
    by code_simp
  have live: "\<not> expired (ExpiresAt ?r3) 200" "\<not> expired (ExpiresAt ?r3) 250"
    "expired (ExpiresAt ?r3) 400"
    by (simp_all add: expired_def)
  from authenticate_api_key [where k = "''K3''" and now = 200 and a = ?w3 and row = ?r3]
    fresh(2) up found live(1)
  have three: "AuthenticateAPIKey ''K3'' 200 ?w3
            = (Inr ?r3, ?w3\<lparr>apiKeyCache := AList.update ''K3'' ?r3 (apiKeyCache ?w3)\<rparr>)"
    "map_of (apiKeyCache ?x3) ''K3'' = Some ?r3"
    by blast+
  from authenticate_api_key [where k = "''K3''" and now = 250 and a = ?x3 and c = ?r3]
    three(2) live(2)
  have four: "AuthenticateAPIKey ''K3'' 250 ?x3 = (Inr ?r3, ?x3)"
    by blast
  from authenticate_api_key [where k = "''K3''" and now = 400 and a = ?x3 and c = ?r3]
    three(2) live(3)
  have "AuthenticateAPIKey ''K3'' 400 ?x3
      = (Inl (errorf ''API key has expired''),
         ?x3\<lparr>apiKeyCache := AList.delete ''K3'' (apiKeyCache ?x3)\<rparr>)"
    by blast
  moreover have "?x3\<lparr>apiKeyCache := AList.delete ''K3'' (apiKeyCache ?x3)\<rparr> = ?w3"
    by code_simp
  ultimately have five: "AuthenticateAPIKey ''K3'' 400 ?x3
      = (Inl (errorf ''API key has expired''), ?w3)"
    by simp
  have absent: "\<forall>r \<in> set (api_keys (authDB ?w3)). Key r = ''K4'' \<longrightarrow> \<not> IsActive r"
    by code_simp
  from authenticate_api_key [where k = "''K4''" and now = 200 and a = ?w3] fresh(3) up absent
  have six: "AuthenticateAPIKey ''K4'' 200 ?w3 = (Inl (errorf ''invalid API key''), ?w3)"
    by blast
  have f1: "fst (AuthenticateAPIKey ''K1'' 200 ?w1) = Inr ?r1"
    by (subst auth1) (rule fst_conv)
  have f2: "fst (RevokeAPIKey ''K1'' ?x1) = None"
    by (subst rev1) (rule fst_conv)
  have f3: "fst (AuthenticateAPIKey ''K1'' 300 ?y1) = Inl (errorf ''invalid API key'')"
    by (subst one) (rule fst_conv)
  have f4: "fst (AuthenticateAPIKey ''K2'' 200 ?w2) = Inl (errorf ''API key has expired'')"
    by (subst two) (rule fst_conv)
  have f5: "fst (AuthenticateAPIKey ''K3'' 250 ?x3) = Inr ?r3"
    by (subst four) (rule fst_conv)
  show ?thesis
    using f1 f2 f3 f4 f5 five six by (intro conjI) assumption+
qed

end
